theory Spec2Isabelle
  imports Complex_Main
begin

section \<open>Numbers and errors\<close>

text \<open>
  Both scripts compute on IEEE floating-point numbers (Python floats and numpy arrays).
  A value is modelled as a real number or one of the three special values; the special
  values follow IEEE 754 as numpy and Python's math module apply it. On finite values the
  binary64 operations of the RMSD engine give the exact real result, or an infinity when
  that result overflows; the rounding of a result in range and the sign of zero are not
  modelled. The binary32 arithmetic of the geometry functions is exact real arithmetic,
  without rounding and without overflow.
\<close>

datatype fl = Fin real | PInf | NInf | NaN

text \<open>
  A binary64 operation rounds its exact result to the nearest float, and a result of
  magnitude \<open>2\<^sup>1\<^sup>0\<^sup>2\<^sup>4 - 2\<^sup>9\<^sup>7\<^sup>0\<close> or more (half a unit in the last place above the
  largest float \<open>2\<^sup>1\<^sup>0\<^sup>2\<^sup>4 - 2\<^sup>9\<^sup>7\<^sup>1\<close>) rounds to an infinity.
\<close>

definition b64_overflow :: real where
  "b64_overflow = 2 ^ 1024 - 2 ^ 970"

definition to_b64 :: "real \<Rightarrow> fl" where
  "to_b64 r =
     (if b64_overflow \<le> r then PInf else if r \<le> - b64_overflow then NInf else Fin r)"

text \<open>The exceptions the modelled code can raise.\<close>

datatype py_error = ValueError | IndexError | ZeroDivisionError | TypeError

fun is_finite :: "fl \<Rightarrow> bool" where
  "is_finite (Fin x) = True"
| "is_finite PInf = False"
| "is_finite NInf = False"
| "is_finite NaN = False"

text \<open>\<open>a - b\<close> on floats.\<close>

fun fl_sub :: "fl \<Rightarrow> fl \<Rightarrow> fl" where
  "fl_sub (Fin a) (Fin b) = to_b64 (a - b)"
| "fl_sub (Fin a) PInf = NInf"
| "fl_sub (Fin a) NInf = PInf"
| "fl_sub PInf (Fin b) = PInf"
| "fl_sub PInf PInf = NaN"
| "fl_sub PInf NInf = PInf"
| "fl_sub NInf (Fin b) = NInf"
| "fl_sub NInf PInf = NInf"
| "fl_sub NInf NInf = NaN"
| "fl_sub NaN b = NaN"
| "fl_sub (Fin a) NaN = NaN"
| "fl_sub PInf NaN = NaN"
| "fl_sub NInf NaN = NaN"

text \<open>\<open>a + b\<close> on floats.\<close>

fun fl_add :: "fl \<Rightarrow> fl \<Rightarrow> fl" where
  "fl_add (Fin a) (Fin b) = to_b64 (a + b)"
| "fl_add (Fin a) PInf = PInf"
| "fl_add (Fin a) NInf = NInf"
| "fl_add PInf (Fin b) = PInf"
| "fl_add PInf PInf = PInf"
| "fl_add PInf NInf = NaN"
| "fl_add NInf (Fin b) = NInf"
| "fl_add NInf PInf = NaN"
| "fl_add NInf NInf = NInf"
| "fl_add NaN b = NaN"
| "fl_add (Fin a) NaN = NaN"
| "fl_add PInf NaN = NaN"
| "fl_add NInf NaN = NaN"

text \<open>\<open>a ** 2\<close> on floats.\<close>

fun fl_sq :: "fl \<Rightarrow> fl" where
  "fl_sq (Fin a) = to_b64 (a * a)"
| "fl_sq PInf = PInf"
| "fl_sq NInf = PInf"
| "fl_sq NaN = NaN"

text \<open>
  \<open>s / n\<close> for a numpy float \<open>s\<close> and a Python length \<open>n\<close>. numpy scalars do not
  raise on a zero divisor: they warn and return an infinity or NaN.
\<close>

fun fl_div_len :: "fl \<Rightarrow> nat \<Rightarrow> fl" where
  "fl_div_len (Fin a) n =
     (if n = 0 then (if a = 0 then NaN else if 0 < a then PInf else NInf)
      else Fin (a / real n))"
| "fl_div_len PInf n = PInf"
| "fl_div_len NInf n = NInf"
| "fl_div_len NaN n = NaN"

text \<open>\<open>np.sqrt\<close>: NaN for a negative argument, no exception.\<close>

fun fl_sqrt :: "fl \<Rightarrow> fl" where
  "fl_sqrt (Fin a) = (if a < 0 then NaN else Fin (sqrt a))"
| "fl_sqrt PInf = PInf"
| "fl_sqrt NInf = NaN"
| "fl_sqrt NaN = NaN"

text \<open>The comparisons \<open>a < b\<close> and \<open>a <= b\<close>: every comparison with NaN is false.\<close>

fun fl_less :: "fl \<Rightarrow> fl \<Rightarrow> bool" where
  "fl_less (Fin a) (Fin b) = (a < b)"
| "fl_less (Fin a) PInf = True"
| "fl_less (Fin a) NInf = False"
| "fl_less PInf b = False"
| "fl_less NInf (Fin b) = True"
| "fl_less NInf PInf = True"
| "fl_less NInf NInf = False"
| "fl_less NaN b = False"
| "fl_less (Fin a) NaN = False"
| "fl_less NInf NaN = False"

fun fl_le :: "fl \<Rightarrow> fl \<Rightarrow> bool" where
  "fl_le (Fin a) (Fin b) = (a \<le> b)"
| "fl_le (Fin a) PInf = True"
| "fl_le (Fin a) NInf = False"
| "fl_le PInf PInf = True"
| "fl_le PInf (Fin b) = False"
| "fl_le PInf NInf = False"
| "fl_le NInf (Fin b) = True"
| "fl_le NInf PInf = True"
| "fl_le NInf NInf = True"
| "fl_le NaN b = False"
| "fl_le (Fin a) NaN = False"
| "fl_le PInf NaN = False"
| "fl_le NInf NaN = False"

section \<open>rmsd_conformer_xyz.py: the RMSD engine\<close>

text \<open>
  A conformer is the numpy array \<open>read_xyz\<close> builds from a list of \<open>[x, y, z]\<close> rows:
  shape \<open>(N, 3)\<close> for \<open>N\<close> rows, and shape \<open>(0,)\<close> for no row. It is modelled as the
  list of its rows; the empty list is the array of shape \<open>(0,)\<close>.
\<close>

type_synonym vec3 = "fl \<times> fl \<times> fl"
type_synonym frame = "vec3 list"

fun v_sub :: "vec3 \<Rightarrow> vec3 \<Rightarrow> vec3" where
  "v_sub (x1, y1, z1) (x2, y2, z2) = (fl_sub x1 x2, fl_sub y1 y2, fl_sub z1 z2)"

fun finite_vec :: "vec3 \<Rightarrow> bool" where
  "finite_vec (x, y, z) = (is_finite x \<and> is_finite y \<and> is_finite z)"


text \<open>
  \<open>coords - coords[0]\<close>: indexing row 0 of the empty array raises IndexError; otherwise
  row 0 (shape \<open>(3,)\<close>) is broadcast against every row.
\<close>

definition adjust_relative_to_first_atom :: "frame \<Rightarrow> py_error + frame" where
  "adjust_relative_to_first_atom coords =
     (case coords of
        [] \<Rightarrow> Inl IndexError
      | c0 # rest \<Rightarrow> Inr (map (\<lambda>c. v_sub c c0) coords))"

text \<open>
  \<open>coords1 - coords2\<close> under numpy broadcasting. Equal shapes subtract row by row. A
  one-row array \<open>(1, 3)\<close> is stretched along the other array's rows \<open>(M, 3)\<close>. Every
  other pair of shapes, among them \<open>(0,)\<close> against \<open>(M, 3)\<close>, raises ValueError.
\<close>

definition arr_sub :: "frame \<Rightarrow> frame \<Rightarrow> py_error + frame" where
  "arr_sub a b =
     (if length a = length b then Inr (map (\<lambda>(x, y). v_sub x y) (zip a b))
      else if length a = 1 \<and> b \<noteq> [] then Inr (map (\<lambda>y. v_sub (hd a) y) b)
      else if length b = 1 \<and> a \<noteq> [] then Inr (map (\<lambda>x. v_sub x (hd b)) a)
      else Inl ValueError)"

text \<open>\<open>np.sum(diff ** 2)\<close>: every entry squared, all of them added; 0.0 for no entry.\<close>

fun sq_entries :: "vec3 \<Rightarrow> fl list" where
  "sq_entries (x, y, z) = [fl_sq x, fl_sq y, fl_sq z]"

definition np_sum_sq :: "frame \<Rightarrow> fl" where
  "np_sum_sq diff = foldl fl_add (Fin 0) (concat (map sq_entries diff))"

definition calculate_rmsd :: "frame \<Rightarrow> frame \<Rightarrow> py_error + fl" where
  "calculate_rmsd coords1 coords2 =
     (case arr_sub coords1 coords2 of
        Inl e \<Rightarrow> Inl e
      | Inr diff \<Rightarrow> Inr (fl_sqrt (fl_div_len (np_sum_sq diff) (length coords1))))"

text \<open>
  Steps 2 and 3 of \<open>main\<close>: the list comprehension recenters every conformer (the first
  exception ends the run), \<open>adjusted_conformers[0]\<close> raises IndexError on an empty
  ensemble, and the loop appends one RMSD per conformer in order.
\<close>

fun adjust_all :: "frame list \<Rightarrow> py_error + frame list" where
  "adjust_all [] = Inr []"
| "adjust_all (c # cs) =
     (case adjust_relative_to_first_atom c of
        Inl e \<Rightarrow> Inl e
      | Inr a \<Rightarrow> (case adjust_all cs of Inl e \<Rightarrow> Inl e | Inr as \<Rightarrow> Inr (a # as)))"

fun rmsd_loop :: "frame \<Rightarrow> frame list \<Rightarrow> py_error + fl list" where
  "rmsd_loop reference_conformer [] = Inr []"
| "rmsd_loop reference_conformer (conformer # rest) =
     (case calculate_rmsd reference_conformer conformer of
        Inl e \<Rightarrow> Inl e
      | Inr rmsd \<Rightarrow>
          (case rmsd_loop reference_conformer rest of
             Inl e \<Rightarrow> Inl e
           | Inr rmsd_values \<Rightarrow> Inr (rmsd # rmsd_values)))"

definition rmsd_pipeline :: "frame list \<Rightarrow> py_error + fl list" where
  "rmsd_pipeline conformers =
     (case adjust_all conformers of
        Inl e \<Rightarrow> Inl e
      | Inr adjusted_conformers \<Rightarrow>
          (case adjusted_conformers of
             [] \<Rightarrow> Inl IndexError
           | reference_conformer # rest \<Rightarrow> rmsd_loop reference_conformer adjusted_conformers))"

section \<open>rmsd_conformer_xyz.py: the classifier\<close>

text \<open>
  The dictionary \<open>categories\<close> has the four keys below from its creation on, so it is a
  total function from the keys to the lists of 1-based conformer numbers.
\<close>

datatype band = Smaller_than_0_5 | From_0_5_to_1_0 | From_1_0_to_2_0 | Above_2_0

type_synonym categories = "band \<Rightarrow> nat list"

definition empty_categories :: categories where
  "empty_categories = (\<lambda>b. [])"

text \<open>The \<open>if\<close>/\<open>elif\<close>/\<open>else\<close> chain of the loop body, in the source's order.\<close>

definition classify_one :: "categories \<Rightarrow> nat \<Rightarrow> fl \<Rightarrow> categories" where
  "classify_one cats i rmsd =
     (if fl_less rmsd (Fin (1/2)) then
        cats(Smaller_than_0_5 := cats Smaller_than_0_5 @ [i + 1])
      else if fl_le (Fin (1/2)) rmsd \<and> fl_less rmsd (Fin 1) then
        cats(From_0_5_to_1_0 := cats From_0_5_to_1_0 @ [i + 1])
      else if fl_le (Fin 1) rmsd \<and> fl_less rmsd (Fin 2) then
        cats(From_1_0_to_2_0 := cats From_1_0_to_2_0 @ [i + 1])
      else
        cats(Above_2_0 := cats Above_2_0 @ [i + 1]))"

text \<open>\<open>for i, rmsd in enumerate(rmsd_values)\<close>, with the counter \<open>i\<close> made explicit.\<close>

fun classify_loop :: "nat \<Rightarrow> fl list \<Rightarrow> categories \<Rightarrow> categories" where
  "classify_loop i [] cats = cats"
| "classify_loop i (rmsd # rest) cats = classify_loop (Suc i) rest (classify_one cats i rmsd)"

definition classify :: "fl list \<Rightarrow> categories" where
  "classify rmsd_values = classify_loop 0 rmsd_values empty_categories"

text \<open>The band intervals as the data model words them, over the reals.\<close>

fun in_band :: "band \<Rightarrow> real \<Rightarrow> bool" where
  "in_band Smaller_than_0_5 x = (0 \<le> x \<and> x < 1/2)"
| "in_band From_0_5_to_1_0 x = (1/2 \<le> x \<and> x < 1)"
| "in_band From_1_0_to_2_0 x = (1 \<le> x \<and> x < 2)"
| "in_band Above_2_0 x = (2 \<le> x)"

text \<open>The band whose list receives a value: the chain of \<open>classify_one\<close> read as a function.\<close>

definition band_of :: "fl \<Rightarrow> band" where
  "band_of rmsd =
     (if fl_less rmsd (Fin (1/2)) then Smaller_than_0_5
      else if fl_le (Fin (1/2)) rmsd \<and> fl_less rmsd (Fin 1) then From_0_5_to_1_0
      else if fl_le (Fin 1) rmsd \<and> fl_less rmsd (Fin 2) then From_1_0_to_2_0
      else Above_2_0)"

section \<open>Python and numpy primitives shared by the scripts\<close>

text \<open>
  Text is parsed by Python's and numpy's own routines, which are not part of the
  repository. They are parameters of the model:
  \<^item> \<open>py_int s\<close> is \<open>int(s)\<close> on a string, \<open>None\<close> when it raises ValueError. \<open>int\<close>
    ignores surrounding whitespace itself, so the \<open>strip()\<close> calls the scripts make
    before it change nothing and are not repeated in the model;
  \<^item> \<open>np_float32s s\<close> is \<open>np.array(s.split()[1:], dtype=np.float32)\<close>, the numeric
    columns after the label, \<open>None\<close> when a column is not a number (ValueError). Columns
    that parse to an infinity or NaN are outside the model;
  \<^item> \<open>py_xyz s\<close> is \<open>float(parts[1]), float(parts[2]), float(parts[3])\<close> for
    \<open>parts = s.strip().split()\<close>: IndexError for fewer than four columns, ValueError
    for a column that is not a number;
  \<^item> \<open>str_float v\<close> is \<open>str(v)\<close> for a float and \<open>getcwd\<close> is \<open>os.getcwd()\<close>.
\<close>

record pyenv =
  py_int :: "string \<Rightarrow> int option"
  np_float32s :: "string \<Rightarrow> real list option"
  py_xyz :: "string \<Rightarrow> py_error + (fl \<times> fl \<times> fl)"
  str_float :: "fl \<Rightarrow> string"
  getcwd :: string

text \<open>Sequencing of steps that may raise: the first exception ends the computation.\<close>

definition and_then :: "py_error + 'a \<Rightarrow> ('a \<Rightarrow> py_error + 'b) \<Rightarrow> py_error + 'b" where
  "and_then m f = (case m of Inl e \<Rightarrow> Inl e | Inr x \<Rightarrow> f x)"

text \<open>\<open>xs[i]\<close> for a Python list: a negative index counts from the end.\<close>

definition py_get :: "'a list \<Rightarrow> int \<Rightarrow> py_error + 'a" where
  "py_get xs i =
     (if 0 \<le> i \<and> i < int (length xs) then Inr (xs ! nat i)
      else if i < 0 \<and> - int (length xs) \<le> i then Inr (xs ! nat (int (length xs) + i))
      else Inl IndexError)"

text \<open>\<open>str(n)\<close> for an integer.\<close>

fun str_nat :: "nat \<Rightarrow> string" where
  "str_nat n =
     (if n < 10 then [char_of (48 + n)]
      else str_nat (n div 10) @ [char_of (48 + n mod 10)])"

declare str_nat.simps [simp del]

definition str_int :: "int \<Rightarrow> string" where
  "str_int i = (if i < 0 then CHR ''-'' # str_nat (nat (- i)) else str_nat (nat i))"

text \<open>
  \<open>round(x, 4)\<close> for a float: the nearest multiple of \<open>10\<^sup>-\<^sup>4\<close>, a tie going to the even
  one; an infinity or NaN is returned as it is.
\<close>

definition round_half_even :: "real \<Rightarrow> int" where
  "round_half_even y =
     (let f = \<lfloor>y\<rfloor>; r = y - of_int f
      in if r < 1/2 then f else if 1/2 < r then f + 1 else if even f then f else f + 1)"

fun py_round4 :: "fl \<Rightarrow> fl" where
  "py_round4 (Fin x) = Fin (of_int (round_half_even (x * 10000)) / 10000)"
| "py_round4 PInf = PInf"
| "py_round4 NInf = NInf"
| "py_round4 NaN = NaN"

text \<open>
  \<open>num / den\<close> where \<open>num\<close> is a numpy scalar: a zero divisor gives NaN or an infinity
  with a warning, not an exception.
\<close>

definition np_divide :: "real \<Rightarrow> real \<Rightarrow> fl" where
  "np_divide num den =
     (if den = 0 then (if num = 0 then NaN else if 0 < num then PInf else NInf)
      else Fin (num / den))"

text \<open>\<open>math.acos\<close>: NaN for NaN, ValueError outside \<open>[-1, 1]\<close>.\<close>

fun math_acos :: "fl \<Rightarrow> py_error + fl" where
  "math_acos (Fin c) = (if c < -1 \<or> 1 < c then Inl ValueError else Inr (Fin (arccos c)))"
| "math_acos PInf = Inl ValueError"
| "math_acos NInf = Inl ValueError"
| "math_acos NaN = Inr NaN"

text \<open>\<open>angle * 180 / math.pi\<close>, and \<open>-angle\<close>, on the result of \<open>math.acos\<close>.\<close>

fun to_degrees :: "fl \<Rightarrow> fl" where
  "to_degrees (Fin a) = Fin (a * 180 / pi)"
| "to_degrees PInf = PInf"
| "to_degrees NInf = NInf"
| "to_degrees NaN = NaN"

fun fl_neg :: "fl \<Rightarrow> fl" where
  "fl_neg (Fin a) = Fin (- a)"
| "fl_neg PInf = NInf"
| "fl_neg NInf = PInf"
| "fl_neg NaN = NaN"

text \<open>
  One-dimensional numpy arrays are lists of reals. \<open>a - b\<close> broadcasts: equal lengths
  subtract entry by entry, a one-entry array is stretched, other lengths raise ValueError.
  \<open>np.dot\<close> needs equal lengths.
\<close>

definition np_sub1 :: "real list \<Rightarrow> real list \<Rightarrow> py_error + real list" where
  "np_sub1 a b =
     (if length a = length b then Inr (map (\<lambda>(x, y). x - y) (zip a b))
      else if length a = 1 then Inr (map (\<lambda>y. hd a - y) b)
      else if length b = 1 then Inr (map (\<lambda>x. x - hd b) a)
      else Inl ValueError)"

definition np_dot :: "real list \<Rightarrow> real list \<Rightarrow> py_error + real" where
  "np_dot a b =
     (if length a = length b then Inr (sum_list (map (\<lambda>(x, y). x * y) (zip a b)))
      else Inl ValueError)"

text \<open>\<open>math.sqrt(sum(v**2 for v in a))\<close>.\<close>

definition norm_of :: "real list \<Rightarrow> real" where
  "norm_of a = sqrt (sum_list (map (\<lambda>v. v * v) a))"

text \<open>
  \<open>np.cross\<close> of two one-dimensional arrays: both need two or three entries
  (ValueError otherwise); a two-entry array has third component zero; two two-entry
  arrays give a scalar (their z component), three components otherwise.
\<close>

datatype cross_result = Vector "real list" | Scalar real

fun cross3 :: "real list \<Rightarrow> real list \<Rightarrow> real list" where
  "cross3 [a0, a1, a2] [b0, b1, b2] = [a1 * b2 - a2 * b1, a2 * b0 - a0 * b2, a0 * b1 - a1 * b0]"
| "cross3 a b = []"

definition np_cross :: "real list \<Rightarrow> real list \<Rightarrow> py_error + cross_result" where
  "np_cross a b =
     (if (length a \<noteq> 2 \<and> length a \<noteq> 3) \<or> (length b \<noteq> 2 \<and> length b \<noteq> 3) then Inl ValueError
      else if length a = 2 \<and> length b = 2 then Inr (Scalar (a ! 0 * b ! 1 - a ! 1 * b ! 0))
      else Inr (Vector (cross3 (if length a = 2 then a @ [0] else a)
                               (if length b = 2 then b @ [0] else b))))"

section \<open>xyz2com_crest_pc.py: the geometry functions\<close>

text \<open>\<open>np.array(array[i].split()[1:], dtype=np.float32)\<close>.\<close>

definition atom_coords :: "pyenv \<Rightarrow> string list \<Rightarrow> int \<Rightarrow> py_error + real list" where
  "atom_coords P array i =
     and_then (py_get array i)
       (\<lambda>line. case np_float32s P line of None \<Rightarrow> Inl ValueError | Some v \<Rightarrow> Inr v)"

text \<open>
  The loop \<open>for v in range(len(x)): sum_d += (x[v]-y[v])**2\<close>: \<open>y[v]\<close> raises IndexError
  when \<open>y\<close> is shorter than \<open>x\<close>.
\<close>

fun sum_sq_diff :: "real list \<Rightarrow> real list \<Rightarrow> real \<Rightarrow> py_error + real" where
  "sum_sq_diff [] y sum_d = Inr sum_d"
| "sum_sq_diff (xv # x) [] sum_d = Inl IndexError"
| "sum_sq_diff (xv # x) (yv # y) sum_d = sum_sq_diff x y (sum_d + (xv - yv) * (xv - yv))"

text \<open>The local variable \<open>distance\<close> of \<open>calc_length\<close>, before the final rounding.\<close>

definition calc_length_distance :: "pyenv \<Rightarrow> string list \<Rightarrow> int \<Rightarrow> int \<Rightarrow> py_error + real" where
  "calc_length_distance P array i j =
     and_then (atom_coords P array i) (\<lambda>x.
     and_then (atom_coords P array j) (\<lambda>y.
     and_then (sum_sq_diff x y 0) (\<lambda>sum_d.
     Inr (sqrt sum_d))))"

definition calc_length :: "pyenv \<Rightarrow> string list \<Rightarrow> int \<Rightarrow> int \<Rightarrow> py_error + fl" where
  "calc_length P array i j =
     and_then (calc_length_distance P array i j) (\<lambda>distance.
     Inr (py_round4 (Fin distance)))"

text \<open>The local variable \<open>angle\<close> of \<open>calc_angle\<close> in degrees, before the final rounding.\<close>

definition calc_angle_degrees ::
    "pyenv \<Rightarrow> string list \<Rightarrow> int \<Rightarrow> int \<Rightarrow> int \<Rightarrow> py_error + fl" where
  "calc_angle_degrees P array i j k =
     and_then (atom_coords P array i) (\<lambda>atomA.
     and_then (atom_coords P array j) (\<lambda>atomB.
     and_then (atom_coords P array k) (\<lambda>atomC.
     and_then (np_sub1 atomB atomA) (\<lambda>AB.
     and_then (np_sub1 atomB atomC) (\<lambda>BC.
     and_then (np_dot AB BC) (\<lambda>dot.
     and_then (math_acos (np_divide dot (norm_of AB * norm_of BC))) (\<lambda>angle.
     Inr (to_degrees angle))))))))"

definition calc_angle :: "pyenv \<Rightarrow> string list \<Rightarrow> int \<Rightarrow> int \<Rightarrow> int \<Rightarrow> py_error + fl" where
  "calc_angle P array i j k =
     and_then (calc_angle_degrees P array i j k) (\<lambda>angle. Inr (py_round4 angle))"

text \<open>
  The bond angle as the specification words it, for comparison with \<open>calc_angle\<close>: the
  arccos of the normalised dot product of the vectors \<open>a - b\<close> and \<open>c - b\<close>, in degrees.
\<close>

definition bondAngle_spec :: "real list \<Rightarrow> real list \<Rightarrow> real list \<Rightarrow> py_error + fl" where
  "bondAngle_spec a b c =
     and_then (np_sub1 a b) (\<lambda>u.
     and_then (np_sub1 c b) (\<lambda>v.
     and_then (np_dot u v) (\<lambda>dot.
     and_then (math_acos (np_divide dot (norm_of u * norm_of v))) (\<lambda>angle.
     Inr (to_degrees angle)))))"

text \<open>
  \<open>sum(v**2 for v in n)\<close> iterates over the cross product: a scalar (zero-dimensional)
  result raises TypeError there.
\<close>

fun as_vector :: "cross_result \<Rightarrow> py_error + real list" where
  "as_vector (Vector v) = Inr v"
| "as_vector (Scalar s) = Inl TypeError"

text \<open>
  The part of \<open>calc_dihedral\<close> after the three bond vectors: the normals \<open>n1\<close> and
  \<open>n2\<close>, the angle between them in degrees, and its sign from \<open>np.dot(n3, BC)\<close>.
\<close>

definition dihedral_of_bonds :: "real list \<Rightarrow> real list \<Rightarrow> real list \<Rightarrow> py_error + fl" where
  "dihedral_of_bonds AB BC CD =
     and_then (np_cross AB BC) (\<lambda>c1.
     and_then (np_cross BC CD) (\<lambda>c2.
     and_then (as_vector c1) (\<lambda>n1.
     and_then (as_vector c2) (\<lambda>n2.
     and_then (np_dot n1 n2) (\<lambda>dot.
     and_then (math_acos (np_divide dot (norm_of n1 * norm_of n2))) (\<lambda>angle.
     and_then (np_cross n1 n2) (\<lambda>c3.
     and_then (as_vector c3) (\<lambda>n3.
     and_then (np_dot n3 BC) (\<lambda>side.
     Inr (if side < 0 then fl_neg (to_degrees angle) else to_degrees angle))))))))))"

text \<open>The local variable \<open>dihedral\<close> of \<open>calc_dihedral\<close> with its sign, before the final rounding.\<close>

definition calc_dihedral_degrees ::
    "pyenv \<Rightarrow> string list \<Rightarrow> int \<Rightarrow> int \<Rightarrow> int \<Rightarrow> int \<Rightarrow> py_error + fl" where
  "calc_dihedral_degrees P array i j k m =
     and_then (atom_coords P array i) (\<lambda>atomA.
     and_then (atom_coords P array j) (\<lambda>atomB.
     and_then (atom_coords P array k) (\<lambda>atomC.
     and_then (atom_coords P array m) (\<lambda>atomD.
     and_then (np_sub1 atomB atomA) (\<lambda>AB.
     and_then (np_sub1 atomC atomB) (\<lambda>BC.
     and_then (np_sub1 atomD atomC) (\<lambda>CD.
     dihedral_of_bonds AB BC CD)))))))"

definition calc_dihedral ::
    "pyenv \<Rightarrow> string list \<Rightarrow> int \<Rightarrow> int \<Rightarrow> int \<Rightarrow> int \<Rightarrow> py_error + fl" where
  "calc_dihedral P array i j k m =
     and_then (calc_dihedral_degrees P array i j k m) (\<lambda>dihedral. Inr (py_round4 dihedral))"

section \<open>rmsd_conformer_xyz.py: reading the ensemble and writing the report\<close>

text \<open>
  The inner loop of \<open>read_xyz\<close>: \<open>n\<close> atom lines from line \<open>i\<close> on. \<open>lines[i]\<close> raises
  IndexError past the end of the file.
\<close>

fun read_atoms :: "pyenv \<Rightarrow> string list \<Rightarrow> nat \<Rightarrow> nat \<Rightarrow> py_error + frame" where
  "read_atoms P lines i 0 = Inr []"
| "read_atoms P lines i (Suc n) =
     (if i < length lines then
        and_then (py_xyz P (lines ! i)) (\<lambda>xyz.
        and_then (read_atoms P lines (Suc i) n) (\<lambda>coords.
        Inr (xyz # coords)))
      else Inl IndexError)"

text \<open>
  The \<open>while i < len(lines)\<close> loop. \<open>range(num_atoms)\<close> is empty for a negative count,
  so every round moves \<open>i\<close> forward by at least two lines.
\<close>

function read_xyz_loop :: "pyenv \<Rightarrow> string list \<Rightarrow> nat \<Rightarrow> frame list \<Rightarrow> py_error + frame list" where
  "read_xyz_loop P lines i conformers =
     (if i < length lines then
        (case py_int P (lines ! i) of
           None \<Rightarrow> Inl ValueError
         | Some num_atoms \<Rightarrow>
             and_then (read_atoms P lines (i + 2) (nat num_atoms)) (\<lambda>coords.
             read_xyz_loop P lines (i + 2 + nat num_atoms) (conformers @ [coords])))
      else Inr conformers)"
  by pat_completeness auto
termination
  by (relation "measure (\<lambda>(P, lines, i, conformers). length lines - i)") auto

declare read_xyz_loop.simps [simp del]

definition read_xyz :: "pyenv \<Rightarrow> string list \<Rightarrow> py_error + frame list" where
  "read_xyz P lines = read_xyz_loop P lines 0 []"

text \<open>
  The report file, as the data \<open>write_rmsd_to_file\<close> formats into it: one line per
  conformer (1-based number and RMSD), then one line per key of \<open>categories\<close> in
  insertion order. The text formatting itself is not modelled.
\<close>

record report =
  value_lines :: "(nat \<times> fl) list"
  class_lines :: "(band \<times> nat list) list"

definition write_rmsd_to_file ::
    "fl list \<Rightarrow> string \<Rightarrow> (string \<rightharpoonup> report) \<Rightarrow> (string \<rightharpoonup> report)" where
  "write_rmsd_to_file rmsd_values output_file fs =
     (let categories = classify rmsd_values
      in fs(output_file \<mapsto>
           \<lparr>value_lines = zip (map Suc [0..<length rmsd_values]) rmsd_values,
            class_lines = map (\<lambda>b. (b, categories b))
              [Smaller_than_0_5, From_0_5_to_1_0, From_1_0_to_2_0, Above_2_0]\<rparr>))"

text \<open>
  \<open>main\<close> of the RMSD script, on the lines of the input file and the files written so
  far. The result is the exception that ended the run, if any, and the files afterwards.
\<close>

definition rmsd_main ::
    "pyenv \<Rightarrow> string list \<Rightarrow> string \<Rightarrow> (string \<rightharpoonup> report)
      \<Rightarrow> py_error option \<times> (string \<rightharpoonup> report)" where
  "rmsd_main P lines output_file fs =
     (case read_xyz P lines of
        Inl e \<Rightarrow> (Some e, fs)
      | Inr conformers \<Rightarrow>
          (case rmsd_pipeline conformers of
             Inl e \<Rightarrow> (Some e, fs)
           | Inr rmsd_values \<Rightarrow> (None, write_rmsd_to_file rmsd_values output_file fs)))"

section \<open>xyz2com_crest_pc.py: the conversion and measurement driver\<close>

text \<open>
  What the driver can change: the directories, the text files (path to content), the
  figures saved by \<open>plt.savefig\<close> (file name and the plotted series) and the lines
  printed. Paths are the strings the program builds; \<open>os.mkdir\<close> and \<open>open\<close> are taken
  to succeed.
\<close>

record world =
  dirs :: "string set"
  files :: "string \<rightharpoonup> string"
  figures :: "(string \<times> fl list) list"
  stdout :: "string list"

definition path_exists :: "world \<Rightarrow> string \<Rightarrow> bool" where
  "path_exists w p = (p \<in> dirs w \<or> files w p \<noteq> None)"

text \<open>\<open>open(path, 'a')\<close> followed by writes: the text is added to the end of the file.\<close>

definition append_file :: "string \<Rightarrow> string \<Rightarrow> world \<Rightarrow> world" where
  "append_file path txt w =
     w\<lparr>files := (files w)(path \<mapsto> (case files w path of None \<Rightarrow> txt | Some old \<Rightarrow> old @ txt))\<rparr>"

text \<open>The local variables of \<open>main\<close> that the command line sets.\<close>

record settings =
  bd_atm1 :: int
  bd_atm2 :: int
  angle_atm1 :: int
  angle_atm2 :: int
  angle_atm3 :: int
  dihedral_atm1 :: int
  dihedral_atm2 :: int
  dihedral_atm3 :: int
  dihedral_atm4 :: int
  trsd :: int
  core :: string
  mem :: string
  bool_chk :: bool

definition initial_settings :: "int \<Rightarrow> settings" where
  "initial_settings num_conf =
     \<lparr>bd_atm1 = 0, bd_atm2 = 0, angle_atm1 = 0, angle_atm2 = 0, angle_atm3 = 0,
      dihedral_atm1 = 0, dihedral_atm2 = 0, dihedral_atm3 = 0, dihedral_atm4 = 0,
      trsd = num_conf, core = ''%nprocshared=24'' @ [CHR 0x0A],
      mem = ''%mem=48GB'' @ [CHR 0x0A], bool_chk = False\<rparr>"

text \<open>\<open>sys.argv[k]\<close> and \<open>int(sys.argv[k])\<close>.\<close>

definition argv_at :: "string list \<Rightarrow> nat \<Rightarrow> py_error + string" where
  "argv_at argv k = (if k < length argv then Inr (argv ! k) else Inl IndexError)"

definition argv_int :: "pyenv \<Rightarrow> string list \<Rightarrow> nat \<Rightarrow> py_error + int" where
  "argv_int P argv k =
     and_then (argv_at argv k)
       (\<lambda>a. case py_int P a of None \<Rightarrow> Inl ValueError | Some n \<Rightarrow> Inr n)"

text \<open>One round of \<open>for k in range(length)\<close>: the \<open>if\<close>/\<open>elif\<close> chain on \<open>sys.argv[k]\<close>.\<close>

definition parse_flag :: "pyenv \<Rightarrow> string list \<Rightarrow> nat \<Rightarrow> settings \<Rightarrow> py_error + settings" where
  "parse_flag P argv k s =
     (if argv ! k = ''-l'' then
        and_then (argv_int P argv (k + 1)) (\<lambda>a1.
        and_then (argv_int P argv (k + 2)) (\<lambda>a2.
        Inr (s\<lparr>bd_atm1 := a1 + 1, bd_atm2 := a2 + 1\<rparr>)))
      else if argv ! k = ''-a'' then
        and_then (argv_int P argv (k + 1)) (\<lambda>a1.
        and_then (argv_int P argv (k + 2)) (\<lambda>a2.
        and_then (argv_int P argv (k + 3)) (\<lambda>a3.
        Inr (s\<lparr>angle_atm1 := a1 + 1, angle_atm2 := a2 + 1, angle_atm3 := a3 + 1\<rparr>))))
      else if argv ! k = ''-d'' then
        and_then (argv_int P argv (k + 1)) (\<lambda>a1.
        and_then (argv_int P argv (k + 2)) (\<lambda>a2.
        and_then (argv_int P argv (k + 3)) (\<lambda>a3.
        and_then (argv_int P argv (k + 4)) (\<lambda>a4.
        Inr (s\<lparr>dihedral_atm1 := a1 + 1, dihedral_atm2 := a2 + 1,
               dihedral_atm3 := a3 + 1, dihedral_atm4 := a4 + 1\<rparr>)))))
      else if argv ! k = ''-n'' then
        and_then (argv_int P argv (k + 1)) (\<lambda>n. Inr (s\<lparr>trsd := n\<rparr>))
      else if argv ! k = ''-c'' then
        and_then (argv_at argv (k + 1)) (\<lambda>c.
        Inr (s\<lparr>core := ''%nprocshared='' @ c @ [CHR 0x0A]\<rparr>))
      else if argv ! k = ''-m'' then
        and_then (argv_at argv (k + 1)) (\<lambda>m.
        Inr (s\<lparr>mem := ''%mem='' @ m @ ''GB'' @ [CHR 0x0A]\<rparr>))
      else if argv ! k = ''-chk'' then Inr (s\<lparr>bool_chk := True\<rparr>)
      else Inr s)"

fun parse_flags :: "pyenv \<Rightarrow> string list \<Rightarrow> nat list \<Rightarrow> settings \<Rightarrow> py_error + settings" where
  "parse_flags P argv [] s = Inr s"
| "parse_flags P argv (k # ks) s = and_then (parse_flag P argv k s) (parse_flags P argv ks)"

text \<open>
  \<open>int(len(data)/(num_atom+2))\<close>: the quotient cut towards zero; division by zero
  raises.
\<close>

definition py_int_quotient :: "int \<Rightarrow> int \<Rightarrow> py_error + int" where
  "py_int_quotient a b =
     (if b = 0 then Inl ZeroDivisionError
      else if (0 \<le> a) = (0 < b) then Inr (\<bar>a\<bar> div \<bar>b\<bar>)
      else Inr (- (\<bar>a\<bar> div \<bar>b\<bar>)))"

text \<open>
  Everything \<open>main\<close> does before it looks at the output folder: the atom count from
  line 0, the number of conformers, the keyword lines (those of \<open>input.txt\<close> when it is
  a file, passed as \<open>Some\<close> of its lines, and the five default lines otherwise) and the
  command line. Nothing here writes.
\<close>

definition default_inpMB :: "string list" where
  "default_inpMB =
     [''# opt freq b3lyp/def2svp em=gd3bj'' @ [CHR 0x0A], [CHR 0x0A],
      ''Title'' @ [CHR 0x0A], [CHR 0x0A], ''0 1'' @ [CHR 0x0A]]"

definition prelude ::
    "pyenv \<Rightarrow> string list \<Rightarrow> string list \<Rightarrow> string list option
      \<Rightarrow> py_error + (int \<times> settings \<times> string list)" where
  "prelude P data argv input_txt =
     and_then (py_get data 0) (\<lambda>line_s.
     and_then (case py_int P line_s of None \<Rightarrow> Inl ValueError | Some n \<Rightarrow> Inr n) (\<lambda>num_atom.
     and_then (py_int_quotient (int (length data)) (num_atom + 2)) (\<lambda>num_conf.
     and_then (if length argv > 1
               then parse_flags P argv [0..<length argv] (initial_settings num_conf)
               else Inr (initial_settings num_conf)) (\<lambda>s.
     Inr (num_atom, s, (case input_txt of Some info \<Rightarrow> info | None \<Rightarrow> default_inpMB))))))"

text \<open>The state the loop over the conformers carries: the three series and the world.\<close>

record run_state =
  bd_length_asb :: "fl list"
  angle_asb :: "fl list"
  dihedral_asb :: "fl list"
  world_of :: world

text \<open>What the loop reads and never changes.\<close>

record job =
  env :: pyenv
  data :: "string list"
  folder_name :: string
  num_atom :: int
  cfg :: settings
  inpMB :: "string list"

definition log_line :: "pyenv \<Rightarrow> nat \<Rightarrow> fl \<Rightarrow> string" where
  "log_line P i v = str_nat (i + 1) @ [CHR 0x09] @ str_float P v @ [CHR 0x0A]"

definition frame_offset :: "job \<Rightarrow> nat \<Rightarrow> int" where
  "frame_offset J i = int i * (num_atom J + 2)"

definition measure_length :: "job \<Rightarrow> nat \<Rightarrow> run_state \<Rightarrow> py_error option \<times> run_state" where
  "measure_length J i st =
     (if bd_atm1 (cfg J) \<ge> 2 \<and> bd_atm2 (cfg J) \<ge> 2 then
        (case calc_length (env J) (data J) (bd_atm1 (cfg J) + frame_offset J i)
                (bd_atm2 (cfg J) + frame_offset J i) of
           Inl e \<Rightarrow> (Some e, st)
         | Inr bd_length_new \<Rightarrow>
             (None, st\<lparr>bd_length_asb := bd_length_asb st @ [bd_length_new],
                       world_of := append_file (''./'' @ folder_name J @ ''/bond_length.txt'')
                                     (log_line (env J) i bd_length_new) (world_of st)\<rparr>))
      else (None, st))"

definition measure_angle :: "job \<Rightarrow> nat \<Rightarrow> run_state \<Rightarrow> py_error option \<times> run_state" where
  "measure_angle J i st =
     (if angle_atm1 (cfg J) \<ge> 2 \<and> angle_atm2 (cfg J) \<ge> 2 \<and> angle_atm3 (cfg J) \<ge> 2 then
        (case calc_angle (env J) (data J) (angle_atm1 (cfg J) + frame_offset J i)
                (angle_atm2 (cfg J) + frame_offset J i) (angle_atm3 (cfg J) + frame_offset J i) of
           Inl e \<Rightarrow> (Some e, st)
         | Inr angle_new \<Rightarrow>
             (None, st\<lparr>angle_asb := angle_asb st @ [angle_new],
                       world_of := append_file (''./'' @ folder_name J @ ''/angle.txt'')
                                     (log_line (env J) i angle_new) (world_of st)\<rparr>))
      else (None, st))"

definition measure_dihedral :: "job \<Rightarrow> nat \<Rightarrow> run_state \<Rightarrow> py_error option \<times> run_state" where
  "measure_dihedral J i st =
     (if dihedral_atm1 (cfg J) \<ge> 2 \<and> dihedral_atm2 (cfg J) \<ge> 2 \<and>
         dihedral_atm3 (cfg J) \<ge> 2 \<and> dihedral_atm4 (cfg J) \<ge> 2 then
        (case calc_dihedral (env J) (data J) (dihedral_atm1 (cfg J) + frame_offset J i)
                (dihedral_atm2 (cfg J) + frame_offset J i)
                (dihedral_atm3 (cfg J) + frame_offset J i)
                (dihedral_atm4 (cfg J) + frame_offset J i) of
           Inl e \<Rightarrow> (Some e, st)
         | Inr dihedral_new \<Rightarrow>
             (None, st\<lparr>dihedral_asb := dihedral_asb st @ [dihedral_new],
                       world_of := append_file (''./'' @ folder_name J @ ''/dihedral.txt'')
                                     (log_line (env J) i dihedral_new) (world_of st)\<rparr>))
      else (None, st))"

text \<open>
  \<open>for j in range(num_atom): f1.write(data[2+j+i*(num_atom+2)])\<close>: the text written so
  far stays in the file when \<open>data[...]\<close> raises.
\<close>

fun copy_atoms :: "string list \<Rightarrow> int \<Rightarrow> nat list \<Rightarrow> string \<Rightarrow> py_error option \<times> string" where
  "copy_atoms dat base [] written = (None, written)"
| "copy_atoms dat base (j # js) written =
     (case py_get dat (base + int j) of
        Inl e \<Rightarrow> (Some e, written)
      | Inr line \<Rightarrow> copy_atoms dat base js (written @ line))"

definition write_com :: "job \<Rightarrow> nat \<Rightarrow> run_state \<Rightarrow> py_error option \<times> run_state" where
  "write_com J i st =
     (let path_save = ''./'' @ folder_name J @ ''/crest_conformers_'' @ str_nat (i + 1) @ ''.com'';
          chk = (if bool_chk (cfg J) then
                   ''%chk='' @ getcwd (env J) @ ''/'' @ folder_name J @ ''/crest_conformers_'' @
                   str_nat (i + 1) @ ''.chk'' @ [CHR 0x0A]
                 else []);
          head = mem (cfg J) @ core (cfg J) @ chk;
          put = (\<lambda>txt. st\<lparr>world_of := (world_of st)\<lparr>files := (files (world_of st))(path_save \<mapsto> txt)\<rparr>\<rparr>)
      in if length (inpMB J) \<le> 5 then
           (case copy_atoms (data J) (2 + frame_offset J i) [0..<nat (num_atom J)]
                   (head @ concat (inpMB J)) of
              (Some e, written) \<Rightarrow> (Some e, put written)
            | (None, written) \<Rightarrow> (None, put (written @ [CHR 0x0A])))
         else
           (case copy_atoms (data J) (2 + frame_offset J i) [0..<nat (num_atom J)]
                   (head @ concat (take 5 (inpMB J))) of
              (Some e, written) \<Rightarrow> (Some e, put written)
            | (None, written) \<Rightarrow> (None, put (written @ concat (drop 5 (inpMB J)) @ [CHR 0x0A]))))"

text \<open>Steps in sequence, each on the state the one before left; an exception stops them.\<close>

definition then_step ::
    "py_error option \<times> run_state \<Rightarrow> (run_state \<Rightarrow> py_error option \<times> run_state)
      \<Rightarrow> py_error option \<times> run_state" where
  "then_step r f = (case r of (Some e, st) \<Rightarrow> (Some e, st) | (None, st) \<Rightarrow> f st)"

definition conformer_step :: "job \<Rightarrow> nat \<Rightarrow> run_state \<Rightarrow> py_error option \<times> run_state" where
  "conformer_step J i st =
     then_step (then_step (then_step (measure_length J i st) (measure_angle J i))
       (measure_dihedral J i)) (write_com J i)"

fun conformer_loop :: "job \<Rightarrow> nat list \<Rightarrow> run_state \<Rightarrow> py_error option \<times> run_state" where
  "conformer_loop J [] st = (None, st)"
| "conformer_loop J (i # rest) st = then_step (conformer_step J i st) (conformer_loop J rest)"

text \<open>The three plots after the loop: a figure is saved for every series that is not empty.\<close>

definition save_figures :: "settings \<Rightarrow> run_state \<Rightarrow> world" where
  "save_figures s st =
     (let w0 = world_of st;
          w1 = (if length (bd_length_asb st) \<noteq> 0 then
                  w0\<lparr>figures := figures w0 @
                    [(''Bond_'' @ str_int (bd_atm1 s - 1) @ ''and'' @ str_int (bd_atm2 s - 1) @ ''.png'',
                      bd_length_asb st)]\<rparr>
                else w0);
          w2 = (if length (angle_asb st) \<noteq> 0 then
                  w1\<lparr>figures := figures w1 @
                    [(''Angle_'' @ str_int (angle_atm1 s - 1) @ ''_'' @ str_int (angle_atm2 s - 1) @
                      ''and'' @ str_int (angle_atm3 s - 1) @ ''.png'', angle_asb st)]\<rparr>
                else w1)
      in if length (dihedral_asb st) \<noteq> 0 then
           w2\<lparr>figures := figures w2 @
             [(''Dihedral_'' @ str_int (dihedral_atm1 s - 1) @ ''_'' @ str_int (dihedral_atm2 s - 1) @
               ''_'' @ str_int (dihedral_atm3 s - 1) @ ''and'' @ str_int (dihedral_atm4 s - 1) @
               ''.png'', dihedral_asb st)]\<rparr>
         else w2)"

text \<open>How a run of the driver ends.\<close>

datatype outcome = Returned | Exited | Raised py_error

definition main ::
    "pyenv \<Rightarrow> string list \<Rightarrow> string list \<Rightarrow> string list option \<Rightarrow> string \<Rightarrow> world
      \<Rightarrow> outcome \<times> world" where
  "main P dat argv input_txt folder w =
     (case prelude P dat argv input_txt of
        Inl e \<Rightarrow> (Raised e, w)
      | Inr (n_atom, s, keywords) \<Rightarrow>
          if \<not> path_exists w folder then
            (let J = \<lparr>env = P, data = dat, folder_name = folder, num_atom = n_atom, cfg = s,
                      inpMB = keywords\<rparr>;
                 st0 = \<lparr>bd_length_asb = [], angle_asb = [], dihedral_asb = [],
                        world_of = w\<lparr>dirs := insert folder (dirs w)\<rparr>\<rparr>
             in case conformer_loop J [0..<nat (trsd s)] st0 of
                  (Some e, st) \<Rightarrow> (Raised e, world_of st)
                | (None, st) \<Rightarrow> (Returned, save_figures s st))
          else
            (Exited, w\<lparr>stdout := stdout w @ [''Folder '' @ folder @ '' already exists.'']\<rparr>))"

section \<open>Notions used to state the properties\<close>

text \<open>A float that \<open>round(_, 4)\<close> leaves unchanged: a multiple of \<open>10\<^sup>-\<^sup>4\<close>, an infinity or NaN.\<close>

definition is_rounded4 :: "fl \<Rightarrow> bool" where
  "is_rounded4 v = (py_round4 v = v)"

definition series_rounded :: "run_state \<Rightarrow> bool" where
  "series_rounded st =
     (list_all is_rounded4 (bd_length_asb st) \<and> list_all is_rounded4 (angle_asb st) \<and>
      list_all is_rounded4 (dihedral_asb st))"

text \<open>
  The three kinds of measurement the driver can take, with what \<open>main\<close> does for each:
  the test that makes a kind active, the call made for conformer \<open>i\<close>, the series the
  result is appended to, and the log file and the figure it is written to.
\<close>

datatype measurement = Bond_length | Bond_angle | Dihedral_angle

fun active :: "settings \<Rightarrow> measurement \<Rightarrow> bool" where
  "active s Bond_length = (bd_atm1 s \<ge> 2 \<and> bd_atm2 s \<ge> 2)"
| "active s Bond_angle = (angle_atm1 s \<ge> 2 \<and> angle_atm2 s \<ge> 2 \<and> angle_atm3 s \<ge> 2)"
| "active s Dihedral_angle =
     (dihedral_atm1 s \<ge> 2 \<and> dihedral_atm2 s \<ge> 2 \<and> dihedral_atm3 s \<ge> 2 \<and> dihedral_atm4 s \<ge> 2)"

fun measured :: "job \<Rightarrow> measurement \<Rightarrow> nat \<Rightarrow> py_error + fl" where
  "measured J Bond_length i =
     calc_length (env J) (data J) (bd_atm1 (cfg J) + frame_offset J i)
       (bd_atm2 (cfg J) + frame_offset J i)"
| "measured J Bond_angle i =
     calc_angle (env J) (data J) (angle_atm1 (cfg J) + frame_offset J i)
       (angle_atm2 (cfg J) + frame_offset J i) (angle_atm3 (cfg J) + frame_offset J i)"
| "measured J Dihedral_angle i =
     calc_dihedral (env J) (data J) (dihedral_atm1 (cfg J) + frame_offset J i)
       (dihedral_atm2 (cfg J) + frame_offset J i) (dihedral_atm3 (cfg J) + frame_offset J i)
       (dihedral_atm4 (cfg J) + frame_offset J i)"

fun series :: "measurement \<Rightarrow> run_state \<Rightarrow> fl list" where
  "series Bond_length st = bd_length_asb st"
| "series Bond_angle st = angle_asb st"
| "series Dihedral_angle st = dihedral_asb st"

fun log_name :: "measurement \<Rightarrow> string" where
  "log_name Bond_length = ''/bond_length.txt''"
| "log_name Bond_angle = ''/angle.txt''"
| "log_name Dihedral_angle = ''/dihedral.txt''"

definition log_text :: "string \<Rightarrow> measurement \<Rightarrow> world \<Rightarrow> string" where
  "log_text folder k w =
     (case files w (''./'' @ folder @ log_name k) of None \<Rightarrow> [] | Some txt \<Rightarrow> txt)"

fun figure_name :: "settings \<Rightarrow> measurement \<Rightarrow> string" where
  "figure_name s Bond_length =
     ''Bond_'' @ str_int (bd_atm1 s - 1) @ ''and'' @ str_int (bd_atm2 s - 1) @ ''.png''"
| "figure_name s Bond_angle =
     ''Angle_'' @ str_int (angle_atm1 s - 1) @ ''_'' @ str_int (angle_atm2 s - 1) @
     ''and'' @ str_int (angle_atm3 s - 1) @ ''.png''"
| "figure_name s Dihedral_angle =
     ''Dihedral_'' @ str_int (dihedral_atm1 s - 1) @ ''_'' @ str_int (dihedral_atm2 s - 1) @
     ''_'' @ str_int (dihedral_atm3 s - 1) @ ''and'' @ str_int (dihedral_atm4 s - 1) @ ''.png''"

text \<open>
  What one step of the loop does to a kind of measurement: nothing, or record the value
  measured for conformer \<open>i\<close> at the end of the series and of the log.
\<close>

definition unchanged :: "job \<Rightarrow> measurement \<Rightarrow> run_state \<Rightarrow> run_state \<Rightarrow> bool" where
  "unchanged J k st st' =
     (series k st' = series k st \<and>
      log_text (folder_name J) k (world_of st') = log_text (folder_name J) k (world_of st))"

definition recorded :: "job \<Rightarrow> measurement \<Rightarrow> nat \<Rightarrow> run_state \<Rightarrow> run_state \<Rightarrow> bool" where
  "recorded J k i st st' =
     (\<exists>v. measured J k i = Inr v \<and> series k st' = series k st @ [v] \<and>
          log_text (folder_name J) k (world_of st') =
            log_text (folder_name J) k (world_of st) @ log_line (env J) i v)"

definition step_ok ::
    "job \<Rightarrow> measurement \<Rightarrow> nat \<Rightarrow> py_error option \<Rightarrow> run_state \<Rightarrow> run_state \<Rightarrow> bool" where
  "step_ok J k i r st st' =
     ((unchanged J k st st' \<and> (r = None \<longrightarrow> \<not> active (cfg J) k)) \<or>
      (active (cfg J) k \<and> recorded J k i st st'))"

text \<open>
  A well-formed block of the ensemble file, as the input format words it: the atom count
  on a line of its own, one comment line, then exactly that many atom lines, each with a
  label and three numbers. \<open>block_frame\<close> is the conformer such a block holds.
\<close>

definition atom_ok :: "pyenv \<Rightarrow> string \<Rightarrow> bool" where
  "atom_ok P a = (case py_xyz P a of Inl e \<Rightarrow> False | Inr xyz \<Rightarrow> True)"

definition xyz_block :: "pyenv \<Rightarrow> string list \<Rightarrow> bool" where
  "xyz_block P b =
     (case b of
        count # comment # atoms \<Rightarrow>
          py_int P count = Some (int (length atoms)) \<and> list_all (atom_ok P) atoms
      | _ \<Rightarrow> False)"

definition block_frame :: "pyenv \<Rightarrow> string list \<Rightarrow> frame" where
  "block_frame P b = map (\<lambda>a. projr (py_xyz P a)) (drop 2 b)"

text \<open>
  A sample ensemble file of one conformer with five atoms, and the parsers' values on
  its lines, for the closed examples below.
\<close>

definition sample_data :: "string list" where
  "sample_data =
     [''5'', ''conformer 1'', ''C 1.0 0.0 0.0'', ''C 0.0 0.0 0.0'', ''C 0.0 0.0 1.0'',
      ''C 0.0 1.0 1.0'', ''H 1.23456 0.0 0.0'']"

definition sample_env :: pyenv where
  "sample_env =
     \<lparr>py_int = (\<lambda>s. if s = ''5'' then Some 5 else if s = ''2'' then Some 2
                     else if s = ''1'' then Some 1 else None),
      np_float32s = (\<lambda>s.
        if s = ''C 1.0 0.0 0.0'' then Some [1, 0, 0]
        else if s = ''C 0.0 0.0 0.0'' then Some [0, 0, 0]
        else if s = ''C 0.0 0.0 1.0'' then Some [0, 0, 1]
        else if s = ''C 0.0 1.0 1.0'' then Some [0, 1, 1]
        else if s = ''H 1.23456 0.0 0.0'' then Some [123456 / 100000, 0, 0]
        else if s = ''5'' then Some []
        else None),
      py_xyz = (\<lambda>s.
        if s = ''C 1.0 0.0 0.0'' then Inr (Fin 1, Fin 0, Fin 0)
        else if s = ''C 0.0 0.0 0.0'' then Inr (Fin 0, Fin 0, Fin 0)
        else if s = ''C 0.0 0.0 1.0'' then Inr (Fin 0, Fin 0, Fin 1)
        else if s = ''C 0.0 1.0 1.0'' then Inr (Fin 0, Fin 1, Fin 1)
        else if s = ''H 1.23456 0.0 0.0'' then Inr (Fin (123456 / 100000), Fin 0, Fin 0)
        else if s = ''5'' \<or> s = ''2'' \<or> s = ''1'' then Inl IndexError
        else Inl ValueError),
      str_float = (\<lambda>v. ''<float>''),
      getcwd = ''/home/user''\<rparr>"

definition empty_world :: world where
  "empty_world = \<lparr>dirs = {}, files = Map.empty, figures = [], stdout = []\<rparr>"

section \<open>Properties of the RMSD engine\<close>

lemma classify_one_band_of:
  "classify_one cats i rmsd = cats(band_of rmsd := cats (band_of rmsd) @ [i + 1])"
  by (simp add: classify_one_def band_of_def)

lemma classify_loop_set:
  "set (classify_loop i vs cats b) =
     set (cats b) \<union> {i + k + 1 | k. k < length vs \<and> band_of (vs ! k) = b}"
proof (induction vs arbitrary: i cats)
  case Nil
  then show ?case by simp
next
  case (Cons v vs)
  have split: "{i + k + 1 | k. k < length (v # vs) \<and> band_of ((v # vs) ! k) = b} =
      (if band_of v = b then {i + 1} else {}) \<union>
      {Suc i + k + 1 | k. k < length vs \<and> band_of (vs ! k) = b}"
  proof (intro set_eqI iffI)
    fix n
    assume "n \<in> {i + k + 1 | k. k < length (v # vs) \<and> band_of ((v # vs) ! k) = b}"
    then obtain k where k: "n = i + k + 1" "k < length (v # vs)" "band_of ((v # vs) ! k) = b"
      by blast
    show "n \<in> (if band_of v = b then {i + 1} else {}) \<union>
      {Suc i + k + 1 | k. k < length vs \<and> band_of (vs ! k) = b}"
    proof (cases k)
      case 0
      with k show ?thesis by simp
    next
      case (Suc j)
      with k have "n = Suc i + j + 1" "j < length vs" "band_of (vs ! j) = b" by simp_all
      then show ?thesis by blast
    qed
  next
    fix n
    assume "n \<in> (if band_of v = b then {i + 1} else {}) \<union>
      {Suc i + k + 1 | k. k < length vs \<and> band_of (vs ! k) = b}"
    then consider "band_of v = b" "n = i + 1"
      | j where "n = Suc i + j + 1" "j < length vs" "band_of (vs ! j) = b"
      by (auto split: if_splits)
    then show "n \<in> {i + k + 1 | k. k < length (v # vs) \<and> band_of ((v # vs) ! k) = b}"
    proof cases
      case 1
      then have "n = i + 0 + 1 \<and> 0 < length (v # vs) \<and> band_of ((v # vs) ! 0) = b" by simp
      then show ?thesis by blast
    next
      case 2
      then have "n = i + Suc j + 1 \<and> Suc j < length (v # vs) \<and> band_of ((v # vs) ! Suc j) = b"
        by simp
      then show ?thesis by blast
    qed
  qed
  show ?case
    unfolding classify_loop.simps Cons.IH split
    by (auto simp: classify_one_band_of)
qed

lemma classify_member:
  "Suc i \<in> set (classify vs b) \<longleftrightarrow> i < length vs \<and> band_of (vs ! i) = b"
  by (auto simp: classify_def classify_loop_set empty_categories_def)



lemma b64_overflow_big: "(1000000 :: real) < b64_overflow"
  by (simp add: b64_overflow_def)

lemma to_b64_small: "\<bar>r\<bar> \<le> 1000000 \<Longrightarrow> to_b64 r = Fin r"
  using b64_overflow_big by (auto simp: to_b64_def)

lemma to_b64_zero: "to_b64 0 = Fin 0"
  by (simp add: to_b64_small)

lemma fl_sub_self: "is_finite a \<Longrightarrow> fl_sub a a = Fin 0"
  by (cases a) (simp_all add: to_b64_zero)

lemma v_sub_self: "finite_vec v \<Longrightarrow> v_sub v v = (Fin 0, Fin 0, Fin 0)"
  by (cases v) (simp add: fl_sub_self)












lemma adjust_length:
  "adjust_relative_to_first_atom c = Inr a \<Longrightarrow> length a = length c"
  by (cases c) (auto simp: adjust_relative_to_first_atom_def)






lemma band_of_real:
  "0 \<le> x \<Longrightarrow> in_band b x \<longleftrightarrow> band_of (Fin x) = b"
  by (cases b) (auto simp: band_of_def)

text \<open>
  Claim C2. Every non-negative real lies in exactly one of the four bands, the loop of
  \<open>write_rmsd_to_file\<close> puts the number of a conformer with that RMSD into the list of
  exactly that band, and the boundary value 0.5 goes to \<open>0.5_to_1.0\<close>, not to
  \<open>smaller_than_0.5\<close>.
\<close>

theorem classify_bands_partition:
  assumes "0 \<le> x"
  shows "(\<exists>!b. in_band b x) \<and>
         (\<forall>vs i. i < length vs \<and> vs ! i = Fin x \<longrightarrow>
            (\<forall>b. Suc i \<in> set (classify vs b) \<longleftrightarrow> in_band b x)) \<and>
         band_of (Fin (1/2)) = From_0_5_to_1_0 \<and>
         Suc 0 \<in> set (classify [Fin (1/2)] From_0_5_to_1_0) \<and>
         Suc 0 \<notin> set (classify [Fin (1/2)] Smaller_than_0_5)"
proof (intro conjI)
  show "\<exists>!b. in_band b x"
    using assms by (simp add: band_of_real)
  show "\<forall>vs i. i < length vs \<and> vs ! i = Fin x \<longrightarrow>
            (\<forall>b. Suc i \<in> set (classify vs b) \<longleftrightarrow> in_band b x)"
    using assms by (simp add: classify_member band_of_real)
  show "band_of (Fin (1/2)) = From_0_5_to_1_0"
    by (simp add: band_of_def)
  show "Suc 0 \<in> set (classify [Fin (1/2)] From_0_5_to_1_0)"
    by (simp add: classify_member band_of_def)
  show "Suc 0 \<notin> set (classify [Fin (1/2)] Smaller_than_0_5)"
    by (simp add: classify_member band_of_def)
qed

text \<open>
  Claim C2 at the value 0.75, second in a list of two.
\<close>

theorem classify_bands_partition_witness:
  "(0::real) \<le> 3/4 \<and> (\<exists>!b. in_band b (3/4)) \<and>
   Suc 1 \<in> set (classify [Fin 3, Fin (3/4)] From_0_5_to_1_0) \<and>
   Suc 1 \<notin> set (classify [Fin 3, Fin (3/4)] Smaller_than_0_5)"
proof -
  have h: "(0::real) \<le> 3/4" by simp
  from classify_bands_partition [OF h]
  have u: "\<exists>!b. in_band b (3/4)"
    and a: "\<forall>vs i. i < length vs \<and> vs ! i = Fin (3/4) \<longrightarrow>
            (\<forall>b. Suc i \<in> set (classify vs b) \<longleftrightarrow> in_band b (3/4))"
    by blast+
  have "1 < length [Fin 3, Fin (3/4)] \<and> [Fin 3, Fin (3/4)] ! 1 = Fin (3/4)" by simp
  with a have m: "\<forall>b. Suc 1 \<in> set (classify [Fin 3, Fin (3/4)] b) \<longleftrightarrow> in_band b (3/4)"
    by blast
  have "Suc 1 \<in> set (classify [Fin 3, Fin (3/4)] From_0_5_to_1_0)"
    unfolding m [rule_format] by simp
  moreover have "Suc 1 \<notin> set (classify [Fin 3, Fin (3/4)] Smaller_than_0_5)"
    unfolding m [rule_format] by simp
  ultimately show ?thesis using h u by (intro conjI)
qed

lemma classify_one_le:
  "\<forall>n \<in> set (cats b). n \<le> i \<Longrightarrow> \<forall>n \<in> set (classify_one cats i v b). n \<le> Suc i"
  by (auto simp: classify_one_band_of)

lemma classify_one_distinct:
  "distinct (cats b) \<Longrightarrow> \<forall>n \<in> set (cats b). n \<le> i \<Longrightarrow> distinct (classify_one cats i v b)"
  by (auto simp: classify_one_band_of)

lemma classify_loop_distinct:
  "distinct (cats b) \<Longrightarrow> \<forall>n \<in> set (cats b). n \<le> i \<Longrightarrow> distinct (classify_loop i vs cats b)"
proof (induction vs arbitrary: i cats)
  case Nil
  then show ?case by simp
next
  case (Cons v vs)
  show ?case
    unfolding classify_loop.simps
    using Cons.prems by (intro Cons.IH classify_one_distinct classify_one_le)
qed

text \<open>
  Claim C10. Whatever the values are, every conformer number is put into exactly one
  list, and once only. A value for which none of the three guarded comparisons holds, NaN
  in particular, goes to \<open>above_2.0\<close>; a negative value goes to \<open>smaller_than_0.5\<close>.
\<close>

theorem classify_total_on_every_value:
  assumes "i < length vs"
  shows "(\<exists>!b. Suc i \<in> set (classify vs b)) \<and>
         (\<forall>b. distinct (classify vs b)) \<and>
         (\<not> fl_less (vs ! i) (Fin (1/2)) \<and>
          \<not> (fl_le (Fin (1/2)) (vs ! i) \<and> fl_less (vs ! i) (Fin 1)) \<and>
          \<not> (fl_le (Fin 1) (vs ! i) \<and> fl_less (vs ! i) (Fin 2))
            \<longrightarrow> Suc i \<in> set (classify vs Above_2_0)) \<and>
         (vs ! i = NaN \<longrightarrow> Suc i \<in> set (classify vs Above_2_0)) \<and>
         (\<forall>x. vs ! i = Fin x \<and> x < 0 \<longrightarrow> Suc i \<in> set (classify vs Smaller_than_0_5))"
proof (intro conjI)
  show "\<exists>!b. Suc i \<in> set (classify vs b)"
    using assms by (simp add: classify_member)
  show "\<forall>b. distinct (classify vs b)"
    by (simp add: classify_def classify_loop_distinct empty_categories_def)
  show "\<not> fl_less (vs ! i) (Fin (1/2)) \<and>
          \<not> (fl_le (Fin (1/2)) (vs ! i) \<and> fl_less (vs ! i) (Fin 1)) \<and>
          \<not> (fl_le (Fin 1) (vs ! i) \<and> fl_less (vs ! i) (Fin 2))
            \<longrightarrow> Suc i \<in> set (classify vs Above_2_0)"
    using assms by (simp add: classify_member band_of_def)
  show "vs ! i = NaN \<longrightarrow> Suc i \<in> set (classify vs Above_2_0)"
    using assms by (simp add: classify_member band_of_def)
  show "\<forall>x. vs ! i = Fin x \<and> x < 0 \<longrightarrow> Suc i \<in> set (classify vs Smaller_than_0_5)"
    using assms by (auto simp: classify_member band_of_def)
qed

text \<open>
  Claim C10 on a list with a NaN in second place.
\<close>

theorem classify_total_on_every_value_witness:
  "(1::nat) < length [Fin (-1), NaN, Fin 7] \<and>
   Suc 1 \<in> set (classify [Fin (-1), NaN, Fin 7] Above_2_0) \<and>
   (\<exists>!b. Suc 1 \<in> set (classify [Fin (-1), NaN, Fin 7] b))"
  using classify_total_on_every_value [of 1 "[Fin (-1), NaN, Fin 7]"]
  by (simp del: One_nat_def)




text \<open>
  Claim C9, as amended. For every non-empty frame the recentered frame has the same
  length and its atom \<open>i\<close> is \<open>frame[i] - frame[0]\<close>; its first atom is exactly \<open>(0, 0, 0)\<close>
  when the coordinates of atom 0 are finite.
\<close>

theorem adjust_first_atom_origin:
  assumes "coords \<noteq> []"
  shows "\<exists>adjusted. adjust_relative_to_first_atom coords = Inr adjusted \<and>
           length adjusted = length coords \<and>
           (\<forall>i < length coords. adjusted ! i = v_sub (coords ! i) (coords ! 0)) \<and>
           (finite_vec (coords ! 0) \<longrightarrow> adjusted ! 0 = (Fin 0, Fin 0, Fin 0))"
proof -
  obtain c0 rest where c: "coords = c0 # rest" using assms by (cases coords) auto
  have "adjust_relative_to_first_atom coords = Inr (map (\<lambda>v. v_sub v c0) coords)"
    using c by (simp add: adjust_relative_to_first_atom_def)
  moreover have "coords ! 0 = c0" using c by simp
  then have "\<forall>i < length coords. map (\<lambda>v. v_sub v c0) coords ! i = v_sub (coords ! i) (coords ! 0)"
    by (simp only: nth_map) simp
  moreover have "finite_vec (coords ! 0) \<longrightarrow> map (\<lambda>v. v_sub v c0) coords ! 0 = (Fin 0, Fin 0, Fin 0)"
    using c by (simp add: v_sub_self)
  ultimately show ?thesis by simp
qed

text \<open>
  The amended claim C9 on a frame of two atoms.
\<close>

theorem adjust_first_atom_origin_witness:
  "[(Fin 1, Fin 2, Fin 3), (Fin 2, Fin 2, Fin 5)] \<noteq> [] \<and>
   adjust_relative_to_first_atom [(Fin 1, Fin 2, Fin 3), (Fin 2, Fin 2, Fin 5)]
     = Inr [(Fin 0, Fin 0, Fin 0), (Fin 1, Fin 0, Fin 2)]"
  using adjust_first_atom_origin [of "[(Fin 1, Fin 2, Fin 3), (Fin 2, Fin 2, Fin 5)]"]
  by (simp add: adjust_relative_to_first_atom_def to_b64_small)

text \<open>
  Claim C9 as stated fails: when a coordinate of atom 0 is NaN or an infinity, the
  first atom of the recentered frame has NaN there, not 0.
\<close>

theorem adjust_first_atom_counterexample:
  "adjust_relative_to_first_atom [(NaN, Fin 1, Fin 2)] = Inr [(NaN, Fin 0, Fin 0)] \<and>
   adjust_relative_to_first_atom [(PInf, Fin 1, Fin 2)] = Inr [(NaN, Fin 0, Fin 0)]"
  by (simp add: adjust_relative_to_first_atom_def to_b64_zero)


section \<open>Properties of the geometry functions\<close>

lemma np_sub1_error: "np_sub1 a b = Inl e \<Longrightarrow> e = ValueError"
  by (auto simp: np_sub1_def split: if_splits)

lemma np_dot_commute: "np_dot a b = np_dot b a"
proof -
  have "length a = length b \<Longrightarrow>
      sum_list (map (\<lambda>(x, y). x * y) (zip a b)) = sum_list (map (\<lambda>(x, y). x * y) (zip b a))"
    by (induction a b rule: list_induct2) (simp_all add: mult.commute)
  then show ?thesis by (auto simp: np_dot_def)
qed

lemma angle_core_commute:
  "and_then (np_dot u v) (\<lambda>dot.
     and_then (math_acos (np_divide dot (norm_of u * norm_of v))) (\<lambda>angle. Inr (to_degrees angle)))
   = and_then (np_dot v u) (\<lambda>dot.
     and_then (math_acos (np_divide dot (norm_of v * norm_of u))) (\<lambda>angle. Inr (to_degrees angle)))"
  by (simp add: np_dot_commute [of u v] mult.commute [of "norm_of u"])

lemma calc_angle_degrees_swap:
  assumes "atom_coords P array i = Inr a"
    and "atom_coords P array j = Inr b"
    and "atom_coords P array k = Inr c"
  shows "calc_angle_degrees P array i j k = calc_angle_degrees P array k j i"
proof (cases "np_sub1 b a")
  case (Inl e)
  then have e: "e = ValueError" by (rule np_sub1_error)
  show ?thesis
  proof (cases "np_sub1 b c")
    case (Inl e')
    then have "e' = ValueError" by (rule np_sub1_error)
    with Inl e \<open>np_sub1 b a = Inl e\<close> show ?thesis
      by (simp add: calc_angle_degrees_def assms and_then_def)
  next
    case (Inr BC)
    with e \<open>np_sub1 b a = Inl e\<close> show ?thesis
      by (simp add: calc_angle_degrees_def assms and_then_def)
  qed
next
  case (Inr AB)
  show ?thesis
  proof (cases "np_sub1 b c")
    case (Inl e')
    then have "e' = ValueError" by (rule np_sub1_error)
    with Inl Inr show ?thesis
      by (simp add: calc_angle_degrees_def assms and_then_def)
  next
    case BC: (Inr BC)
    have l: "calc_angle_degrees P array i j k = and_then (np_dot AB BC) (\<lambda>dot.
        and_then (math_acos (np_divide dot (norm_of AB * norm_of BC)))
          (\<lambda>angle. Inr (to_degrees angle)))"
      using Inr BC by (simp add: calc_angle_degrees_def assms and_then_def)
    have r: "calc_angle_degrees P array k j i = and_then (np_dot BC AB) (\<lambda>dot.
        and_then (math_acos (np_divide dot (norm_of BC * norm_of AB)))
          (\<lambda>angle. Inr (to_degrees angle)))"
      using Inr BC by (simp add: calc_angle_degrees_def assms and_then_def)
    show ?thesis unfolding l r by (rule angle_core_commute)
  qed
qed

lemma np_sub1_flip:
  "np_sub1 a b = (case np_sub1 b a of Inl e \<Rightarrow> Inl e | Inr d \<Rightarrow> Inr (map uminus d))"
proof -
  have eq: "length a = length b \<Longrightarrow>
      map (\<lambda>(x, y). x - y) (zip a b) = map uminus (map (\<lambda>(x, y). x - y) (zip b a))"
    by (induction a b rule: list_induct2) simp_all
  show ?thesis
    by (auto simp: np_sub1_def eq)
qed

lemma np_dot_neg: "np_dot (map uminus u) (map uminus v) = np_dot u v"
proof -
  have "length u = length v \<Longrightarrow>
      sum_list (map (\<lambda>(x, y). x * y) (zip (map uminus u) (map uminus v))) =
      sum_list (map (\<lambda>(x, y). x * y) (zip u v))"
    by (induction u v rule: list_induct2) simp_all
  then show ?thesis by (simp add: np_dot_def)
qed

lemma norm_of_neg: "norm_of (map uminus u) = norm_of u"
  by (simp add: norm_of_def comp_def)

lemma calc_angle_degrees_spec:
  assumes "atom_coords P array i = Inr a"
    and "atom_coords P array j = Inr b"
    and "atom_coords P array k = Inr c"
  shows "calc_angle_degrees P array i j k = bondAngle_spec a b c"
  by (cases "np_sub1 b a"; cases "np_sub1 b c")
    (simp_all add: calc_angle_degrees_def bondAngle_spec_def assms and_then_def
      np_sub1_flip [of a b] np_sub1_flip [of c b] np_dot_neg norm_of_neg split: sum.splits)

lemma dihedral_of_bonds_reverse:
  "dihedral_of_bonds [- r0, - r1, - r2] [- q0, - q1, - q2] [- p0, - p1, - p2] =
   dihedral_of_bonds [p0, p1, p2] [q0, q1, q2] [r0, r1, r2]"
proof -
  define n1 where "n1 = [p1 * q2 - p2 * q1, p2 * q0 - p0 * q2, p0 * q1 - p1 * q0]"
  define n2 where "n2 = [q1 * r2 - q2 * r1, q2 * r0 - q0 * r2, q0 * r1 - q1 * r0]"
  have c1: "np_cross [p0, p1, p2] [q0, q1, q2] = Inr (Vector n1)"
    and c2: "np_cross [q0, q1, q2] [r0, r1, r2] = Inr (Vector n2)"
    by (simp_all add: np_cross_def n1_def n2_def)
  have c1': "np_cross [- r0, - r1, - r2] [- q0, - q1, - q2] = Inr (Vector (map uminus n2))"
    and c2': "np_cross [- q0, - q1, - q2] [- p0, - p1, - p2] = Inr (Vector (map uminus n1))"
    by (simp_all add: np_cross_def n1_def n2_def)
  have dot: "np_dot (map uminus n2) (map uminus n1) = np_dot n1 n2"
    by (simp add: np_dot_neg np_dot_commute [of n2 n1])
  obtain x y z where n1e: "n1 = [x, y, z]" by (simp add: n1_def)
  obtain u v w where n2e: "n2 = [u, v, w]" by (simp add: n2_def)
  have tail: "and_then (np_cross (map uminus n2) (map uminus n1)) (\<lambda>c3.
        and_then (as_vector c3) (\<lambda>n3.
        and_then (np_dot n3 [- q0, - q1, - q2]) f))
      = and_then (np_cross n1 n2) (\<lambda>c3.
        and_then (as_vector c3) (\<lambda>n3.
        and_then (np_dot n3 [q0, q1, q2]) f))" for f :: "real \<Rightarrow> py_error + fl"
    unfolding n1e n2e
    by (simp add: np_cross_def and_then_def np_dot_def algebra_simps)
  show ?thesis
    unfolding dihedral_of_bonds_def c1 c2 c1' c2'
    by (simp add: and_then_def dot norm_of_neg mult.commute [of "norm_of n2"]
        tail [unfolded and_then_def] split: sum.splits)
qed



lemma atoms3:
  assumes "length (a :: real list) = 3"
  obtains a0 a1 a2 where "a = [a0, a1, a2]"
proof -
  from assms obtain a0 t where "a = a0 # t" "length t = 2" by (cases a) auto
  moreover then obtain a1 t' where "t = a1 # t'" "length t' = 1" by (cases t) auto
  moreover then obtain a2 where "t' = [a2]" by (cases t') auto
  ultimately show ?thesis using that by simp
qed

lemma calc_dihedral_reverse_eq:
  assumes "atom_coords P array i = Inr a"
    and "atom_coords P array j = Inr b"
    and "atom_coords P array k = Inr c"
    and "atom_coords P array m = Inr d"
    and "length a = 3" and "length b = 3" and "length c = 3" and "length d = 3"
  shows "calc_dihedral P array i j k m = calc_dihedral P array m k j i"
proof -
  obtain a0 a1 a2 where a: "a = [a0, a1, a2]" using assms(5) by (rule atoms3)
  obtain b0 b1 b2 where b: "b = [b0, b1, b2]" using assms(6) by (rule atoms3)
  obtain c0 c1 c2 where c: "c = [c0, c1, c2]" using assms(7) by (rule atoms3)
  obtain d0 d1 d2 where d: "d = [d0, d1, d2]" using assms(8) by (rule atoms3)
  have fwd: "calc_dihedral_degrees P array i j k m =
      dihedral_of_bonds [b0 - a0, b1 - a1, b2 - a2] [c0 - b0, c1 - b1, c2 - b2]
        [d0 - c0, d1 - c1, d2 - c2]"
    by (simp add: calc_dihedral_degrees_def assms(1-4) a b c d and_then_def np_sub1_def)
  have bwd: "calc_dihedral_degrees P array m k j i =
      dihedral_of_bonds [c0 - d0, c1 - d1, c2 - d2] [b0 - c0, b1 - c1, b2 - c2]
        [a0 - b0, a1 - b1, a2 - b2]"
    by (simp add: calc_dihedral_degrees_def assms(1-4) a b c d and_then_def np_sub1_def)
  have "calc_dihedral_degrees P array m k j i = calc_dihedral_degrees P array i j k m"
    unfolding fwd bwd
    using dihedral_of_bonds_reverse [of "d0 - c0" "d1 - c1" "d2 - c2" "c0 - b0" "c1 - b1" "c2 - b2"
        "b0 - a0" "b1 - a1" "b2 - a2"]
    by simp
  then show ?thesis by (simp add: calc_dihedral_def)
qed

lemma round_half_even_int: "round_half_even (of_int n) = n"
  by (simp add: round_half_even_def Let_def)

lemma py_round4_idem: "py_round4 (py_round4 v) = py_round4 v"
  by (cases v) (simp_all add: round_half_even_int)

lemma sample_atoms:
  "atom_coords sample_env sample_data 2 = Inr [1, 0, 0]"
  "atom_coords sample_env sample_data 3 = Inr [0, 0, 0]"
  "atom_coords sample_env sample_data 4 = Inr [0, 0, 1]"
  "atom_coords sample_env sample_data 5 = Inr [0, 1, 1]"
  "atom_coords sample_env sample_data 6 = Inr [123456 / 100000, 0, 0]"
  by (simp_all add: atom_coords_def sample_env_def sample_data_def py_get_def and_then_def)

lemma round_half_even_numeral: "round_half_even (numeral n) = numeral n"
  using round_half_even_int [of "numeral n"] by simp

lemma sample_dihedral:
  "calc_dihedral sample_env sample_data 2 3 4 5 = Inr (Fin 90)"
  "calc_dihedral sample_env sample_data 5 4 3 2 = Inr (Fin 90)"
  by (simp_all add: calc_dihedral_def calc_dihedral_degrees_def dihedral_of_bonds_def sample_atoms
      and_then_def np_sub1_def np_cross_def np_dot_def norm_of_def np_divide_def
      round_half_even_numeral)

lemma dihedral_of_bonds_colinear:
  assumes "cross3 [p0, p1, p2] [q0, q1, q2] = [0, 0, 0] \<or> cross3 [q0, q1, q2] [r0, r1, r2] = [0, 0, 0]"
  shows "dihedral_of_bonds [p0, p1, p2] [q0, q1, q2] [r0, r1, r2] = Inr NaN"
  using assms
  by (auto simp: dihedral_of_bonds_def np_cross_def and_then_def np_dot_def norm_of_def
      np_divide_def)

text \<open>
  Claim C3, as amended. For four atom lines with three coordinates each on which the
  dihedral is defined, that is, \<open>calc_dihedral\<close> returns a number (it returns NaN when
  three consecutive atoms are colinear), reversing the atom order leaves the result
  unchanged: the sign convention makes \<open>dihedral(a,b,c,d) = dihedral(d,c,b,a)\<close>, not its
  negation. (Both normals and the middle bond change sign, so the angle between the
  normals and the sign test are the same.)
\<close>

theorem calc_dihedral_reversal:
  assumes "atom_coords P array i = Inr a"
    and "atom_coords P array j = Inr b"
    and "atom_coords P array k = Inr c"
    and "atom_coords P array m = Inr d"
    and "length a = 3" and "length b = 3" and "length c = 3" and "length d = 3"
    and "calc_dihedral P array i j k m = Inr (Fin v)"
  shows "calc_dihedral P array m k j i = Inr (Fin v)"
  using calc_dihedral_reverse_eq [OF assms(1-8)] assms(9) by simp

text \<open>
  The amended claim C3 on the four carbon atoms of the sample.
\<close>

theorem calc_dihedral_reversal_witness:
  "atom_coords sample_env sample_data 2 = Inr [1, 0, 0] \<and>
   atom_coords sample_env sample_data 3 = Inr [0, 0, 0] \<and>
   atom_coords sample_env sample_data 4 = Inr [0, 0, 1] \<and>
   atom_coords sample_env sample_data 5 = Inr [0, 1, 1] \<and>
   calc_dihedral sample_env sample_data 2 3 4 5 = Inr (Fin 90) \<and>
   calc_dihedral sample_env sample_data 5 4 3 2 = Inr (Fin 90)"
proof -
  have "calc_dihedral sample_env sample_data 5 4 3 2 = Inr (Fin 90)"
    by (rule calc_dihedral_reversal [OF sample_atoms(1) sample_atoms(2) sample_atoms(3)
          sample_atoms(4) _ _ _ _ sample_dihedral(1)]) simp_all
  then show ?thesis using sample_atoms sample_dihedral(1) by (intro conjI)
qed

text \<open>
  Claim C3 as stated fails: on the four carbon atoms of the sample the dihedral is 90
  degrees in both directions, not 90 and -90.
\<close>

theorem calc_dihedral_reversal_counterexample:
  "calc_dihedral sample_env sample_data 2 3 4 5 = Inr (Fin 90) \<and>
   calc_dihedral sample_env sample_data 5 4 3 2 = Inr (Fin 90)"
  using sample_dihedral by (intro conjI)


text \<open>
  Claim C4. When the three atom lines parse, swapping the two end atoms leaves the
  result of \<open>calc_angle\<close> unchanged, and the result is the rounded angle between \<open>a - b\<close>
  and \<open>c - b\<close>, although the function subtracts the other way round.
\<close>

theorem calc_angle_endpoint_swap:
  assumes "atom_coords P array i = Inr a"
    and "atom_coords P array j = Inr b"
    and "atom_coords P array k = Inr c"
  shows "calc_angle P array i j k = calc_angle P array k j i \<and>
         calc_angle P array i j k = and_then (bondAngle_spec a b c) (\<lambda>angle. Inr (py_round4 angle))"
  using calc_angle_degrees_swap [OF assms] calc_angle_degrees_spec [OF assms]
  by (simp add: calc_angle_def)

text \<open>
  Claim C4 on the first three carbon atoms of the sample: a right angle.
\<close>

theorem calc_angle_endpoint_swap_witness:
  "atom_coords sample_env sample_data 2 = Inr [1, 0, 0] \<and>
   atom_coords sample_env sample_data 3 = Inr [0, 0, 0] \<and>
   atom_coords sample_env sample_data 4 = Inr [0, 0, 1] \<and>
   calc_angle sample_env sample_data 2 3 4 = calc_angle sample_env sample_data 4 3 2 \<and>
   calc_angle sample_env sample_data 2 3 4 = Inr (Fin 90)"
proof -
  have v: "calc_angle sample_env sample_data 2 3 4 = Inr (Fin 90)"
    by (simp add: calc_angle_def calc_angle_degrees_def sample_atoms and_then_def np_sub1_def
        np_dot_def norm_of_def np_divide_def round_half_even_numeral)
  show ?thesis
    using calc_angle_endpoint_swap [OF sample_atoms(1) sample_atoms(2) sample_atoms(3)] v
    by (simp add: sample_atoms)
qed

lemma calc_length_is_rounded:
  "calc_length P array i j = Inr v \<Longrightarrow>
     (\<exists>distance. calc_length_distance P array i j = Inr distance \<and> v = py_round4 (Fin distance)) \<and>
     is_rounded4 v"
  by (auto simp: calc_length_def and_then_def is_rounded4_def py_round4_idem
      simp del: py_round4.simps split: sum.splits)

lemma calc_angle_is_rounded:
  "calc_angle P array i j k = Inr v \<Longrightarrow>
     (\<exists>angle. calc_angle_degrees P array i j k = Inr angle \<and> v = py_round4 angle) \<and>
     is_rounded4 v"
  by (auto simp: calc_angle_def and_then_def is_rounded4_def py_round4_idem
      simp del: py_round4.simps split: sum.splits)

lemma calc_dihedral_is_rounded:
  "calc_dihedral P array i j k m = Inr v \<Longrightarrow>
     (\<exists>dihedral. calc_dihedral_degrees P array i j k m = Inr dihedral \<and> v = py_round4 dihedral) \<and>
     is_rounded4 v"
  by (auto simp: calc_dihedral_def and_then_def is_rounded4_def py_round4_idem
      simp del: py_round4.simps split: sum.splits)

lemma measure_length_rounded:
  "series_rounded st \<Longrightarrow> series_rounded (snd (measure_length J i st))"
  by (auto simp: measure_length_def series_rounded_def dest: calc_length_is_rounded
      split: sum.splits)

lemma measure_angle_rounded:
  "series_rounded st \<Longrightarrow> series_rounded (snd (measure_angle J i st))"
  by (auto simp: measure_angle_def series_rounded_def dest: calc_angle_is_rounded
      split: sum.splits)

lemma measure_dihedral_rounded:
  "series_rounded st \<Longrightarrow> series_rounded (snd (measure_dihedral J i st))"
  by (auto simp: measure_dihedral_def series_rounded_def dest: calc_dihedral_is_rounded
      split: sum.splits)

lemma write_com_rounded:
  "series_rounded st \<Longrightarrow> series_rounded (snd (write_com J i st))"
  by (auto simp: write_com_def series_rounded_def Let_def split: prod.splits option.splits)

lemma then_step_rounded:
  assumes "series_rounded (snd r)" and "\<And>st. series_rounded st \<Longrightarrow> series_rounded (snd (f st))"
  shows "series_rounded (snd (then_step r f))"
  using assms by (cases r) (auto simp: then_step_def split: option.splits)

lemma conformer_step_rounded:
  "series_rounded st \<Longrightarrow> series_rounded (snd (conformer_step J i st))"
  unfolding conformer_step_def
  by (intro then_step_rounded measure_length_rounded measure_angle_rounded
      measure_dihedral_rounded write_com_rounded)

lemma conformer_loop_rounded:
  "series_rounded st \<Longrightarrow> series_rounded (snd (conformer_loop J is st))"
proof (induction "is" arbitrary: st)
  case Nil
  then show ?case by simp
next
  case (Cons i rest)
  show ?case
    unfolding conformer_loop.simps
    by (intro then_step_rounded conformer_step_rounded Cons.prems Cons.IH)
qed



lemma sample_distance:
  "calc_length_distance sample_env sample_data 3 6 = Inr (123456 / 100000)"
proof -
  have "sqrt ((123456 / 100000) * (123456 / 100000)) = (123456 / 100000 :: real)"
    by (rule real_sqrt_unique) (simp_all add: power2_eq_square)
  then show ?thesis
    by (simp add: calc_length_distance_def sample_atoms and_then_def)
qed

lemma sample_round: "py_round4 (Fin (123456 / 100000)) = Fin (12346 / 10000)"
proof -
  have "\<lfloor>(61728 / 5 :: real)\<rfloor> = 12345" by (simp add: floor_eq_iff)
  then show ?thesis by (simp add: round_half_even_def Let_def)
qed

lemma sample_length: "calc_length sample_env sample_data 3 6 = Inr (Fin (12346 / 10000))"
  unfolding calc_length_def sample_distance
  by (simp only: and_then_def sum.case sample_round)


lemma measure_length_figures:
  "figures (world_of (snd (measure_length J i st))) = figures (world_of st)"
  by (simp add: measure_length_def append_file_def split: sum.splits)

lemma measure_angle_figures:
  "figures (world_of (snd (measure_angle J i st))) = figures (world_of st)"
  by (simp add: measure_angle_def append_file_def split: sum.splits)

lemma measure_dihedral_figures:
  "figures (world_of (snd (measure_dihedral J i st))) = figures (world_of st)"
  by (simp add: measure_dihedral_def append_file_def split: sum.splits)

lemma write_com_figures:
  "figures (world_of (snd (write_com J i st))) = figures (world_of st)"
  by (simp add: write_com_def Let_def split: prod.splits option.splits)

lemma then_step_figures:
  assumes "figures (world_of (snd r)) = F"
    and "\<And>st. figures (world_of (snd (f st))) = figures (world_of st)"
  shows "figures (world_of (snd (then_step r f))) = F"
  using assms by (cases r) (auto simp: then_step_def split: option.splits)

lemma conformer_step_figures:
  "figures (world_of (snd (conformer_step J i st))) = figures (world_of st)"
  unfolding conformer_step_def
  by (intro then_step_figures measure_length_figures measure_angle_figures
      measure_dihedral_figures write_com_figures)

lemma conformer_loop_figures:
  "figures (world_of (snd (conformer_loop J is st))) = figures (world_of st)"
proof (induction "is" arbitrary: st)
  case Nil
  then show ?case by simp
next
  case (Cons i rest)
  show ?case
    unfolding conformer_loop.simps
    by (intro then_step_figures conformer_step_figures Cons.IH)
qed

lemma save_figures_rounded:
  assumes "series_rounded st"
  shows "\<exists>new. figures (save_figures s st) = figures (world_of st) @ new \<and>
           list_all (\<lambda>(name, series). list_all is_rounded4 series) new"
  using assms by (auto simp: save_figures_def series_rounded_def Let_def)

lemma main_figures_rounded:
  "\<exists>new. figures (snd (main P dat argv input_txt folder w)) = figures w @ new \<and>
         list_all (\<lambda>(name, series). list_all is_rounded4 series) new"
proof (cases "prelude P dat argv input_txt")
  case (Inl e)
  then show ?thesis by (simp add: main_def)
next
  case (Inr r)
  obtain n s kw where r: "r = (n, s, kw)" by (cases r) auto
  show ?thesis
  proof (cases "path_exists w folder")
    case True
    with Inr r show ?thesis by (simp add: main_def)
  next
    case False
    define J where "J = \<lparr>env = P, data = dat, folder_name = folder, num_atom = n, cfg = s,
                      inpMB = kw\<rparr>"
    define st0 where "st0 = \<lparr>bd_length_asb = [], angle_asb = [], dihedral_asb = [],
                        world_of = w\<lparr>dirs := insert folder (dirs w)\<rparr>\<rparr>"
    obtain err st where l: "conformer_loop J [0..<nat (trsd s)] st0 = (err, st)"
      by (cases "conformer_loop J [0..<nat (trsd s)] st0") auto
    have "series_rounded st0" by (simp add: st0_def series_rounded_def)
    then have sr: "series_rounded st"
      using conformer_loop_rounded [of st0 J "[0..<nat (trsd s)]"] l by simp
    have fg: "figures (world_of st) = figures w"
      using conformer_loop_figures [of J "[0..<nat (trsd s)]" st0] l by (simp add: st0_def)
    have m: "main P dat argv input_txt folder w =
        (case err of Some e \<Rightarrow> (Raised e, world_of st) | None \<Rightarrow> (Returned, save_figures s st))"
      using Inr r False l by (simp add: main_def J_def st0_def Let_def)
    show ?thesis
    proof (cases err)
      case None
      with m save_figures_rounded [OF sr, of s] fg show ?thesis by simp
    next
      case (Some e)
      with m fg show ?thesis by simp
    qed
  qed
qed




lemma unchanged_refl: "unchanged J k st st"
  by (simp add: unchanged_def)

lemma unchanged_trans: "unchanged J k a b \<Longrightarrow> unchanged J k b c \<Longrightarrow> unchanged J k a c"
  by (simp add: unchanged_def)

lemma recorded_then_unchanged: "recorded J k i a b \<Longrightarrow> unchanged J k b c \<Longrightarrow> recorded J k i a c"
  by (auto simp: unchanged_def recorded_def)

lemma unchanged_then_recorded: "unchanged J k a b \<Longrightarrow> recorded J k i b c \<Longrightarrow> recorded J k i a c"
  by (auto simp: unchanged_def recorded_def)

lemma then_step_SU:
  assumes "step_ok J k i (fst r1) st (snd r1)"
    and "\<And>s. unchanged J k s (snd (g s))"
  shows "step_ok J k i (fst (then_step r1 g)) st (snd (then_step r1 g))"
proof (cases r1)
  case (Pair e st1)
  show ?thesis
  proof (cases e)
    case (Some x)
    with Pair assms(1) show ?thesis by (simp add: then_step_def)
  next
    case None
    with Pair assms(1) have
      "(unchanged J k st st1 \<and> \<not> active (cfg J) k) \<or> (active (cfg J) k \<and> recorded J k i st st1)"
      by (simp add: step_ok_def)
    then show ?thesis
      using assms(2) [of st1] Pair None
      by (auto simp: then_step_def step_ok_def
          intro: unchanged_trans recorded_then_unchanged)
  qed
qed

lemma then_step_US:
  assumes "unchanged J k st (snd r1)"
    and "\<And>s. step_ok J k i (fst (g s)) s (snd (g s))"
  shows "step_ok J k i (fst (then_step r1 g)) st (snd (then_step r1 g))"
proof (cases r1)
  case (Pair e st1)
  show ?thesis
  proof (cases e)
    case (Some x)
    with Pair assms(1) show ?thesis by (simp add: then_step_def step_ok_def)
  next
    case None
    with Pair assms(1) assms(2) [of st1] show ?thesis
      by (auto simp: then_step_def step_ok_def
          intro: unchanged_trans unchanged_then_recorded)
  qed
qed

lemma then_step_UU:
  assumes "unchanged J k st (snd r1)"
    and "\<And>s. unchanged J k s (snd (g s))"
  shows "unchanged J k st (snd (then_step r1 g))"
  using assms(1) assms(2) [of "snd r1"]
  by (cases r1) (auto simp: then_step_def split: option.splits intro: unchanged_trans)

lemma measure_length_step: "step_ok J Bond_length i (fst (measure_length J i st)) st (snd (measure_length J i st))"
  by (auto simp: measure_length_def step_ok_def unchanged_def recorded_def log_text_def
      append_file_def split: sum.splits option.splits)

lemma measure_angle_step: "step_ok J Bond_angle i (fst (measure_angle J i st)) st (snd (measure_angle J i st))"
  by (auto simp: measure_angle_def step_ok_def unchanged_def recorded_def log_text_def
      append_file_def split: sum.splits option.splits)

lemma measure_dihedral_step:
  "step_ok J Dihedral_angle i (fst (measure_dihedral J i st)) st (snd (measure_dihedral J i st))"
  by (auto simp: measure_dihedral_def step_ok_def unchanged_def recorded_def log_text_def
      append_file_def split: sum.splits option.splits)

lemma measure_length_other: "k \<noteq> Bond_length \<Longrightarrow> unchanged J k st (snd (measure_length J i st))"
  by (cases k) (auto simp: measure_length_def unchanged_def log_text_def append_file_def
      split: sum.splits)

lemma measure_angle_other: "k \<noteq> Bond_angle \<Longrightarrow> unchanged J k st (snd (measure_angle J i st))"
  by (cases k) (auto simp: measure_angle_def unchanged_def log_text_def append_file_def
      split: sum.splits)

lemma measure_dihedral_other:
  "k \<noteq> Dihedral_angle \<Longrightarrow> unchanged J k st (snd (measure_dihedral J i st))"
  by (cases k) (auto simp: measure_dihedral_def unchanged_def log_text_def append_file_def
      split: sum.splits)

lemma write_com_other: "unchanged J k st (snd (write_com J i st))"
  by (cases k) (auto simp: write_com_def unchanged_def log_text_def Let_def
      split: prod.splits option.splits)

lemma conformer_step_ok:
  "step_ok J k i (fst (conformer_step J i st)) st (snd (conformer_step J i st))"
proof (cases k)
  case Bond_length
  show ?thesis unfolding conformer_step_def Bond_length
    by (intro then_step_SU measure_length_step measure_angle_other measure_dihedral_other
        write_com_other) simp_all
next
  case Bond_angle
  show ?thesis unfolding conformer_step_def Bond_angle
    by (intro then_step_SU then_step_US measure_angle_step measure_length_other
        measure_dihedral_other write_com_other) simp_all
next
  case Dihedral_angle
  show ?thesis unfolding conformer_step_def Dihedral_angle
    by (intro then_step_SU then_step_US then_step_UU measure_dihedral_step measure_length_other
        measure_angle_other write_com_other) simp_all
qed


lemma conformer_loop_inactive:
  "\<not> active (cfg J) k \<Longrightarrow> unchanged J k st (snd (conformer_loop J is st))"
proof (induction "is" arbitrary: st)
  case Nil
  then show ?case by (simp add: unchanged_refl)
next
  case (Cons i rest)
  have "unchanged J k st (snd (conformer_step J i st))"
    using conformer_step_ok [of J k i st] Cons.prems by (simp add: step_ok_def)
  then show ?case
    unfolding conformer_loop.simps
    by (rule then_step_UU) (rule Cons.IH [OF Cons.prems])
qed


lemma conformer_loop_recorded:
  assumes "active (cfg J) k"
  shows "\<exists>vs. length vs \<le> length is \<and>
           (fst (conformer_loop J is st) = None \<longrightarrow> length vs = length is) \<and>
           (\<forall>n < length vs. measured J k (is ! n) = Inr (vs ! n)) \<and>
           series k (snd (conformer_loop J is st)) = series k st @ vs \<and>
           log_text (folder_name J) k (world_of (snd (conformer_loop J is st))) =
             log_text (folder_name J) k (world_of st) @
             concat (map (\<lambda>(i, v). log_line (env J) i v) (zip is vs))"
proof (induction "is" arbitrary: st)
  case Nil
  show ?case by (rule exI [of _ "[]"]) simp
next
  case (Cons i rest)
  obtain r1 st1 where s1: "conformer_step J i st = (r1, st1)"
    by (cases "conformer_step J i st") simp
  have ok: "step_ok J k i r1 st st1"
    using conformer_step_ok [of J k i st] s1 by simp
  show ?case
  proof (cases r1)
    case (Some e)
    then have res: "conformer_loop J (i # rest) st = (Some e, st1)"
      using s1 by (simp add: then_step_def)
    from ok have "unchanged J k st st1 \<or> recorded J k i st st1"
      unfolding step_ok_def by blast
    then show ?thesis
    proof
      assume "unchanged J k st st1"
      then have u: "series k st1 = series k st"
          "log_text (folder_name J) k (world_of st1) = log_text (folder_name J) k (world_of st)"
        unfolding unchanged_def by simp_all
      show ?thesis unfolding res
        by (rule exI [of _ "[]"]) (simp add: u)
    next
      assume "recorded J k i st st1"
      then obtain v where v: "measured J k i = Inr v" "series k st1 = series k st @ [v]"
        "log_text (folder_name J) k (world_of st1) =
           log_text (folder_name J) k (world_of st) @ log_line (env J) i v"
        unfolding recorded_def by blast
      show ?thesis unfolding res
        by (rule exI [of _ "[v]"]) (simp add: v)
    qed
  next
    case None
    then have res: "conformer_loop J (i # rest) st = conformer_loop J rest st1"
      using s1 by (simp add: then_step_def)
    from ok None assms have "recorded J k i st st1" by (simp add: step_ok_def)
    then obtain v where v: "measured J k i = Inr v" "series k st1 = series k st @ [v]"
        "log_text (folder_name J) k (world_of st1) =
           log_text (folder_name J) k (world_of st) @ log_line (env J) i v"
      unfolding recorded_def by blast
    from Cons.IH [of st1] obtain vs where vs0:
        "length vs \<le> length rest \<and>
        (fst (conformer_loop J rest st1) = None \<longrightarrow> length vs = length rest) \<and>
        (\<forall>n < length vs. measured J k (rest ! n) = Inr (vs ! n)) \<and>
        series k (snd (conformer_loop J rest st1)) = series k st1 @ vs \<and>
        log_text (folder_name J) k (world_of (snd (conformer_loop J rest st1))) =
           log_text (folder_name J) k (world_of st1) @
           concat (map (\<lambda>(i, v). log_line (env J) i v) (zip rest vs))"
      ..
    have each: "\<forall>n < length (v # vs). measured J k ((i # rest) ! n) = Inr ((v # vs) ! n)"
    proof (intro allI impI)
      fix n assume n: "n < length (v # vs)"
      show "measured J k ((i # rest) ! n) = Inr ((v # vs) ! n)"
      proof (cases n)
        case 0
        then show ?thesis using v(1) by simp
      next
        case (Suc m)
        with n have "m < length vs" by simp
        with vs0 have "measured J k (rest ! m) = Inr (vs ! m)" by blast
        with Suc show ?thesis by simp
      qed
    qed
    have a: "length (v # vs) \<le> length (i # rest)" using vs0 by simp
    have b: "fst (conformer_loop J rest st1) = None \<longrightarrow> length (v # vs) = length (i # rest)"
      using vs0 by simp
    have c: "series k (snd (conformer_loop J rest st1)) = series k st @ (v # vs)"
      using vs0 v(2) by simp
    have d: "log_text (folder_name J) k (world_of (snd (conformer_loop J rest st1))) =
        log_text (folder_name J) k (world_of st) @
        concat (map (\<lambda>(i, v). log_line (env J) i v) (zip (i # rest) (v # vs)))"
      using vs0 v(3) by simp
    show ?thesis unfolding res
      using a b each c d by (intro exI [of _ "v # vs"] conjI)
  qed
qed


lemma save_figures_files: "files (save_figures s st) = files (world_of st)"
  by (simp add: save_figures_def Let_def)

lemma save_figures_series:
  "series k st \<noteq> [] \<Longrightarrow> (figure_name s k, series k st) \<in> set (figures (save_figures s st))"
  by (cases k) (auto simp: save_figures_def Let_def)

lemma log_text_cong: "files w' = files w \<Longrightarrow> log_text f k w' = log_text f k w"
  by (simp add: log_text_def)

lemma main_records:
  assumes m: "main P dat argv input_txt folder w = (out, w')"
    and p: "prelude P dat argv input_txt = Inr (n, s, keywords)"
    and new: "\<not> path_exists w folder"
    and act: "active s k"
  shows "\<exists>vs. length vs \<le> nat (trsd s) \<and>
           (out = Returned \<longrightarrow> length vs = nat (trsd s)) \<and>
           (\<forall>i < length vs.
              measured \<lparr>env = P, data = dat, folder_name = folder, num_atom = n, cfg = s,
                        inpMB = keywords\<rparr> k i = Inr (vs ! i)) \<and>
           log_text folder k w' = log_text folder k w @
             concat (map (\<lambda>(i, v). log_line P i v) (zip [0..<nat (trsd s)] vs)) \<and>
           (out = Returned \<and> vs \<noteq> [] \<longrightarrow> (figure_name s k, vs) \<in> set (figures w'))"
proof -
  define J where "J = \<lparr>env = P, data = dat, folder_name = folder, num_atom = n, cfg = s,
                      inpMB = keywords\<rparr>"
  define st0 where "st0 = \<lparr>bd_length_asb = [], angle_asb = [], dihedral_asb = [],
                        world_of = w\<lparr>dirs := insert folder (dirs w)\<rparr>\<rparr>"
  obtain err st where l: "conformer_loop J [0..<nat (trsd s)] st0 = (err, st)"
    by (cases "conformer_loop J [0..<nat (trsd s)] st0") simp
  have mm: "(out, w') =
      (case err of Some e \<Rightarrow> (Raised e, world_of st) | None \<Rightarrow> (Returned, save_figures s st))"
    using m p new l by (simp add: main_def J_def st0_def Let_def)
  have act': "active (cfg J) k" using act by (simp add: J_def)
  have fld: "folder_name J = folder" and en: "env J = P" by (simp_all add: J_def)
  from conformer_loop_recorded [OF act', of "[0..<nat (trsd s)]" st0]
  obtain vs where vs0:
      "length vs \<le> length [0..<nat (trsd s)] \<and>
       (fst (conformer_loop J [0..<nat (trsd s)] st0) = None \<longrightarrow>
          length vs = length [0..<nat (trsd s)]) \<and>
       (\<forall>i < length vs. measured J k ([0..<nat (trsd s)] ! i) = Inr (vs ! i)) \<and>
       series k (snd (conformer_loop J [0..<nat (trsd s)] st0)) = series k st0 @ vs \<and>
       log_text (folder_name J) k (world_of (snd (conformer_loop J [0..<nat (trsd s)] st0))) =
         log_text (folder_name J) k (world_of st0) @
         concat (map (\<lambda>(i, v). log_line (env J) i v) (zip [0..<nat (trsd s)] vs))"
    ..
  have v1: "length vs \<le> nat (trsd s)" using vs0 by simp
  have v2: "err = None \<longrightarrow> length vs = nat (trsd s)" using vs0 l by simp
  have v3: "\<forall>i < length vs. measured J k i = Inr (vs ! i)"
  proof (intro allI impI)
    fix i assume i: "i < length vs"
    with v1 have "[0..<nat (trsd s)] ! i = i" by simp
    moreover from vs0 i have "measured J k ([0..<nat (trsd s)] ! i) = Inr (vs ! i)" by blast
    ultimately show "measured J k i = Inr (vs ! i)" by simp
  qed
  have s0: "series k st0 = []" by (cases k) (simp_all add: st0_def)
  have v4: "series k st = vs" using vs0 l s0 by simp
  have l0: "log_text folder k (world_of st0) = log_text folder k w"
    by (simp add: st0_def log_text_def)
  have v5: "log_text folder k (world_of st) = log_text folder k w @
      concat (map (\<lambda>(i, v). log_line P i v) (zip [0..<nat (trsd s)] vs))"
    using vs0 l l0 fld en by simp
  have files: "files w' = files (world_of st)"
    using mm by (cases err) (simp_all add: save_figures_files)
  have b: "log_text folder k w' = log_text folder k w @
      concat (map (\<lambda>(i, v). log_line P i v) (zip [0..<nat (trsd s)] vs))"
    using v5 log_text_cong [OF files, of folder k] by simp
  have c: "out = Returned \<longrightarrow> length vs = nat (trsd s)"
    using mm v2 by (cases err) simp_all
  have d: "out = Returned \<and> vs \<noteq> [] \<longrightarrow> (figure_name s k, vs) \<in> set (figures w')"
  proof
    assume h: "out = Returned \<and> vs \<noteq> []"
    with mm have e: "w' = save_figures s st" by (cases err) simp_all
    from h v4 have "series k st \<noteq> []" by simp
    from save_figures_series [OF this, of s] e v4 show "(figure_name s k, vs) \<in> set (figures w')"
      by simp
  qed
  show ?thesis
    using v1 c v3 b d unfolding J_def by (intro exI [of _ vs] conjI)
qed


lemma sample_run_prelude:
  "prelude sample_env sample_data [''xyz2com_crest_pc.py'', ''-l'', ''2'', ''5''] None =
     Inr (5, (initial_settings 1)\<lparr>bd_atm1 := 3, bd_atm2 := 6\<rparr>, default_inpMB)"
  by (simp add: prelude_def py_get_def and_then_def sample_env_def sample_data_def
      py_int_quotient_def upt_conv_Cons parse_flag_def argv_int_def argv_at_def)

lemma sample_run_returns:
  "fst (main sample_env sample_data [''xyz2com_crest_pc.py'', ''-l'', ''2'', ''5''] None
     ''crest_conformers'' empty_world) = Returned"
proof -
  have cp: "copy_atoms sample_data 2 [0..<5] written =
      (None, written @ concat (take 5 (drop 2 sample_data)))" for written
    by (simp add: upt_conv_Cons py_get_def sample_data_def)
  show ?thesis
    unfolding main_def sample_run_prelude
    by (simp add: path_exists_def empty_world_def Let_def conformer_step_def
        then_step_def measure_length_def measure_angle_def measure_dihedral_def write_com_def
        frame_offset_def initial_settings_def sample_length default_inpMB_def cp)
qed

text \<open>
  Claim C6, as amended. Only the computation inside a geometry function has full
  precision. The value each of the three functions returns is the rounding to four
  decimal places of its local full-precision result. For every active kind of measurement
  the loop over the conformers appends the value returned for each conformer, in order,
  to the series of that kind and writes the same value, after the conformer number, to
  the log file of that kind; a run of \<open>main\<close> that returns plots exactly that series. So
  the stored, logged and plotted values are the rounded ones.
\<close>

theorem geometry_results_are_rounded:
  "(calc_length P array i j = Inr v \<longrightarrow>
      (\<exists>distance. calc_length_distance P array i j = Inr distance \<and> v = py_round4 (Fin distance)) \<and>
      is_rounded4 v) \<and>
   (calc_angle P array i j k = Inr v \<longrightarrow>
      (\<exists>angle. calc_angle_degrees P array i j k = Inr angle \<and> v = py_round4 angle) \<and>
      is_rounded4 v) \<and>
   (calc_dihedral P array i j k m = Inr v \<longrightarrow>
      (\<exists>dihedral. calc_dihedral_degrees P array i j k m = Inr dihedral \<and> v = py_round4 dihedral) \<and>
      is_rounded4 v) \<and>
   series_rounded (snd (conformer_loop J conformer_numbers
      \<lparr>bd_length_asb = [], angle_asb = [], dihedral_asb = [], world_of = w\<rparr>)) \<and>
   (\<exists>new. figures (snd (main P dat argv input_txt folder w)) = figures w @ new \<and>
      list_all (\<lambda>(name, series). list_all is_rounded4 series) new) \<and>
   (active (cfg J) kind \<longrightarrow>
      (\<exists>vs. length vs \<le> length conformer_numbers \<and>
         (fst (conformer_loop J conformer_numbers st) = None
            \<longrightarrow> length vs = length conformer_numbers) \<and>
         (\<forall>n < length vs. measured J kind (conformer_numbers ! n) = Inr (vs ! n)) \<and>
         series kind (snd (conformer_loop J conformer_numbers st)) = series kind st @ vs \<and>
         log_text (folder_name J) kind (world_of (snd (conformer_loop J conformer_numbers st))) =
           log_text (folder_name J) kind (world_of st) @
           concat (map (\<lambda>(i, v). log_line (env J) i v) (zip conformer_numbers vs)))) \<and>
   (main P dat argv input_txt folder w = (out, w') \<and>
    prelude P dat argv input_txt = Inr (natoms, s, keyword_lines) \<and>
    \<not> path_exists w folder \<and> active s kind \<longrightarrow>
      (\<exists>vs. length vs \<le> nat (trsd s) \<and>
         (out = Returned \<longrightarrow> length vs = nat (trsd s)) \<and>
         (\<forall>i < length vs.
            measured \<lparr>env = P, data = dat, folder_name = folder, num_atom = natoms, cfg = s,
                      inpMB = keyword_lines\<rparr> kind i = Inr (vs ! i)) \<and>
         log_text folder kind w' = log_text folder kind w @
           concat (map (\<lambda>(i, v). log_line P i v) (zip [0..<nat (trsd s)] vs)) \<and>
         (out = Returned \<and> vs \<noteq> [] \<longrightarrow> (figure_name s kind, vs) \<in> set (figures w'))))"
proof (intro conjI impI)
  show "series_rounded (snd (conformer_loop J conformer_numbers
      \<lparr>bd_length_asb = [], angle_asb = [], dihedral_asb = [], world_of = w\<rparr>))"
    by (rule conformer_loop_rounded) (simp add: series_rounded_def)
  show "\<exists>new. figures (snd (main P dat argv input_txt folder w)) = figures w @ new \<and>
      list_all (\<lambda>(name, series). list_all is_rounded4 series) new"
    by (rule main_figures_rounded)
  show "\<exists>vs. length vs \<le> length conformer_numbers \<and>
         (fst (conformer_loop J conformer_numbers st) = None
            \<longrightarrow> length vs = length conformer_numbers) \<and>
         (\<forall>n < length vs. measured J kind (conformer_numbers ! n) = Inr (vs ! n)) \<and>
         series kind (snd (conformer_loop J conformer_numbers st)) = series kind st @ vs \<and>
         log_text (folder_name J) kind (world_of (snd (conformer_loop J conformer_numbers st))) =
           log_text (folder_name J) kind (world_of st) @
           concat (map (\<lambda>(i, v). log_line (env J) i v) (zip conformer_numbers vs))"
    if "active (cfg J) kind"
    using that by (rule conformer_loop_recorded)
  show "\<exists>vs. length vs \<le> nat (trsd s) \<and>
         (out = Returned \<longrightarrow> length vs = nat (trsd s)) \<and>
         (\<forall>i < length vs.
            measured \<lparr>env = P, data = dat, folder_name = folder, num_atom = natoms, cfg = s,
                      inpMB = keyword_lines\<rparr> kind i = Inr (vs ! i)) \<and>
         log_text folder kind w' = log_text folder kind w @
           concat (map (\<lambda>(i, v). log_line P i v) (zip [0..<nat (trsd s)] vs)) \<and>
         (out = Returned \<and> vs \<noteq> [] \<longrightarrow> (figure_name s kind, vs) \<in> set (figures w'))"
    if h: "main P dat argv input_txt folder w = (out, w') \<and>
      prelude P dat argv input_txt = Inr (natoms, s, keyword_lines) \<and>
      \<not> path_exists w folder \<and> active s kind"
  proof -
    from h have a: "main P dat argv input_txt folder w = (out, w')"
      and b: "prelude P dat argv input_txt = Inr (natoms, s, keyword_lines)"
      and c: "\<not> path_exists w folder" and d: "active s kind"
      by simp_all
    show ?thesis by (rule main_records [OF a b c d])
  qed
qed (blast dest: calc_length_is_rounded calc_angle_is_rounded calc_dihedral_is_rounded)+


text \<open>
  The amended claim C6 on a run of the driver over the sample with the request
  \<open>-l 2 5\<close>: two atoms at distance 1.23456, logged and plotted as 1.2346.
\<close>

theorem geometry_results_are_rounded_witness:
  "calc_length sample_env sample_data 3 6 = Inr (Fin (12346 / 10000)) \<and>
   calc_length_distance sample_env sample_data 3 6 = Inr (123456 / 100000) \<and>
   is_rounded4 (Fin (12346 / 10000)) \<and>
   prelude sample_env sample_data [''xyz2com_crest_pc.py'', ''-l'', ''2'', ''5''] None =
     Inr (5, (initial_settings 1)\<lparr>bd_atm1 := 3, bd_atm2 := 6\<rparr>, default_inpMB) \<and>
   \<not> path_exists empty_world ''crest_conformers'' \<and>
   active ((initial_settings 1)\<lparr>bd_atm1 := 3, bd_atm2 := 6\<rparr>) Bond_length \<and>
   fst (main sample_env sample_data [''xyz2com_crest_pc.py'', ''-l'', ''2'', ''5''] None
     ''crest_conformers'' empty_world) = Returned \<and>
   log_text ''crest_conformers'' Bond_length
     (snd (main sample_env sample_data [''xyz2com_crest_pc.py'', ''-l'', ''2'', ''5''] None
       ''crest_conformers'' empty_world)) = log_line sample_env 0 (Fin (12346 / 10000)) \<and>
   (figure_name ((initial_settings 1)\<lparr>bd_atm1 := 3, bd_atm2 := 6\<rparr>) Bond_length,
      [Fin (12346 / 10000)])
     \<in> set (figures (snd (main sample_env sample_data
         [''xyz2com_crest_pc.py'', ''-l'', ''2'', ''5''] None ''crest_conformers'' empty_world)))"
proof -
  let ?argv = "[''xyz2com_crest_pc.py'', ''-l'', ''2'', ''5'']"
  let ?S = "(initial_settings 1)\<lparr>bd_atm1 := 3, bd_atm2 := 6\<rparr>"
  let ?M = "main sample_env sample_data ?argv None ''crest_conformers'' empty_world"
  let ?J = "\<lparr>env = sample_env, data = sample_data, folder_name = ''crest_conformers'',
             num_atom = 5, cfg = ?S, inpMB = default_inpMB\<rparr>"
  note inst = geometry_results_are_rounded [where P = sample_env and array = sample_data
      and i = 3 and j = 6 and v = "Fin (12346 / 10000)" and dat = sample_data and argv = ?argv
      and input_txt = None and folder = "''crest_conformers''" and w = empty_world
      and out = "fst ?M" and w' = "snd ?M" and natoms = 5 and s = ?S
      and keyword_lines = default_inpMB and kind = Bond_length]
  have r4: "is_rounded4 (Fin (12346 / 10000))"
    using inst sample_length by blast
  have ne: "\<not> path_exists empty_world ''crest_conformers''"
    by (simp add: path_exists_def empty_world_def)
  have act: "active ?S Bond_length" by (simp add: initial_settings_def)
  have m: "?M = (fst ?M, snd ?M)" by simp
  have "\<exists>vs. length vs \<le> nat (trsd ?S) \<and>
         (fst ?M = Returned \<longrightarrow> length vs = nat (trsd ?S)) \<and>
         (\<forall>i < length vs. measured ?J Bond_length i = Inr (vs ! i)) \<and>
         log_text ''crest_conformers'' Bond_length (snd ?M) =
           log_text ''crest_conformers'' Bond_length empty_world @
           concat (map (\<lambda>(i, v). log_line sample_env i v) (zip [0..<nat (trsd ?S)] vs)) \<and>
         (fst ?M = Returned \<and> vs \<noteq> [] \<longrightarrow> (figure_name ?S Bond_length, vs) \<in> set (figures (snd ?M)))"
    using inst m sample_run_prelude ne act by blast
  then obtain vs where vs: "fst ?M = Returned \<longrightarrow> length vs = nat (trsd ?S)"
      "\<forall>i < length vs. measured ?J Bond_length i = Inr (vs ! i)"
      "log_text ''crest_conformers'' Bond_length (snd ?M) =
           log_text ''crest_conformers'' Bond_length empty_world @
           concat (map (\<lambda>(i, v). log_line sample_env i v) (zip [0..<nat (trsd ?S)] vs))"
      "fst ?M = Returned \<and> vs \<noteq> [] \<longrightarrow> (figure_name ?S Bond_length, vs) \<in> set (figures (snd ?M))"
    by blast
  have len: "length vs = 1" using vs(1) sample_run_returns by (simp add: initial_settings_def)
  then obtain x where x: "vs = [x]" by (cases vs) auto
  have "measured ?J Bond_length 0 = Inr (Fin (12346 / 10000))"
    by (simp add: frame_offset_def initial_settings_def sample_length)
  with vs(2) x have xv: "x = Fin (12346 / 10000)" by simp
  have lg: "log_text ''crest_conformers'' Bond_length (snd ?M) = log_line sample_env 0 (Fin (12346 / 10000))"
    using vs(3) x xv by (simp add: initial_settings_def log_text_def empty_world_def)
  have fg: "(figure_name ?S Bond_length, [Fin (12346 / 10000)]) \<in> set (figures (snd ?M))"
    using vs(4) x xv sample_run_returns by simp
  show ?thesis
    using sample_length sample_distance r4 sample_run_prelude ne act sample_run_returns lg fg
    by (intro conjI)
qed

text \<open>
  Claim C6 as stated fails: for two atoms at distance 1.23456 \<open>calc_length\<close> returns
  1.2346, and that rounded value is what the driver appends to \<open>bd_length_asb\<close>.
\<close>

theorem returned_length_is_rounded_counterexample:
  "calc_length_distance sample_env sample_data 3 6 = Inr (123456 / 100000) \<and>
   calc_length sample_env sample_data 3 6 = Inr (Fin (12346 / 10000)) \<and>
   bd_length_asb (snd (measure_length
       \<lparr>env = sample_env, data = sample_data, folder_name = ''crest_conformers'', num_atom = 5,
        cfg = (initial_settings 1)\<lparr>bd_atm1 := 3, bd_atm2 := 6\<rparr>, inpMB = default_inpMB\<rparr> 0
       \<lparr>bd_length_asb = [], angle_asb = [], dihedral_asb = [], world_of = empty_world\<rparr>))
     = [Fin (12346 / 10000)]"
proof -
  have "bd_length_asb (snd (measure_length
       \<lparr>env = sample_env, data = sample_data, folder_name = ''crest_conformers'', num_atom = 5,
        cfg = (initial_settings 1)\<lparr>bd_atm1 := 3, bd_atm2 := 6\<rparr>, inpMB = default_inpMB\<rparr> 0
       \<lparr>bd_length_asb = [], angle_asb = [], dihedral_asb = [], world_of = empty_world\<rparr>))
     = [Fin (12346 / 10000)]"
    unfolding measure_length_def
    by (simp add: frame_offset_def initial_settings_def sample_length)
  then show ?thesis using sample_distance sample_length by (intro conjI)
qed


section \<open>Properties of the conversion and measurement driver\<close>


lemma str_nat_digit: "n < 10 \<Longrightarrow> str_nat n = [char_of (48 + n)]"
  by (simp add: str_nat.simps)

lemma str_1: "str_nat (Suc 0) = ''1''" and str_2: "str_nat (Suc (Suc 0)) = ''2''"
  by code_simp+


text \<open>
  Claim C7 as stated fails for the driver. A file that declares two atoms and holds
  one is not refused: the run ends normally and has created the output folder. A second
  conformer whose atom-count line is not a number is not refused either: its input file
  is written.
\<close>

theorem malformed_input_counterexample:
  "main sample_env [''2'', ''conformer 1'', ''C 0.0 0.0 0.0''] [''xyz2com_crest_pc.py''] None
      ''crest_conformers'' empty_world
     = (Returned, empty_world\<lparr>dirs := {''crest_conformers''}\<rparr>) \<and>
   fst (main sample_env
      [''1'', ''conformer 1'', ''C 0.0 0.0 0.0'', ''one'', ''conformer 2'', ''C 0.0 0.0 1.0'']
      [''xyz2com_crest_pc.py''] None ''crest_conformers'' empty_world) = Returned \<and>
   files (snd (main sample_env
      [''1'', ''conformer 1'', ''C 0.0 0.0 0.0'', ''one'', ''conformer 2'', ''C 0.0 0.0 1.0'']
      [''xyz2com_crest_pc.py''] None ''crest_conformers'' empty_world))
      ''./crest_conformers/crest_conformers_2.com'' \<noteq> None"
  by (simp add: main_def prelude_def py_get_def and_then_def sample_env_def py_int_quotient_def
      path_exists_def empty_world_def save_figures_def initial_settings_def Let_def
      upt_conv_Cons conformer_step_def then_step_def measure_length_def measure_angle_def
      measure_dihedral_def write_com_def default_inpMB_def frame_offset_def str_1 str_2)

lemma read_xyz_first_line:
  "py_int P line = None \<Longrightarrow> read_xyz P (line # rest) = Inl ValueError"
  by (simp add: read_xyz_def read_xyz_loop.simps [of P "line # rest" 0 "[]"])

lemma read_atoms_ok:
  "list_all (atom_ok P) atoms \<Longrightarrow>
     read_atoms P (pre @ atoms @ post) (length pre) (length atoms)
       = Inr (map (\<lambda>a. projr (py_xyz P a)) atoms)"
proof (induction atoms arbitrary: pre)
  case Nil
  then show ?case by simp
next
  case (Cons a atoms)
  from Cons.prems obtain xyz where a: "py_xyz P a = Inr xyz"
    by (auto simp: atom_ok_def split: sum.splits)
  have rest: "read_atoms P ((pre @ [a]) @ atoms @ post) (length (pre @ [a])) (length atoms)
      = Inr (map (\<lambda>a. projr (py_xyz P a)) atoms)"
    using Cons.prems by (intro Cons.IH) simp
  show ?case using a rest by (simp add: and_then_def nth_append)
qed

lemma read_atoms_missing:
  "list_all (atom_ok P) atoms \<Longrightarrow> length atoms < n \<Longrightarrow>
     read_atoms P (pre @ atoms) (length pre) n = Inl IndexError"
proof (induction atoms arbitrary: pre n)
  case Nil
  then show ?case by (cases n) simp_all
next
  case (Cons a atoms)
  from Cons.prems obtain xyz where a: "py_xyz P a = Inr xyz"
    by (auto simp: atom_ok_def split: sum.splits)
  from Cons.prems obtain n' where n: "n = Suc n'" "length atoms < n'" by (cases n) auto
  have rest: "read_atoms P ((pre @ [a]) @ atoms) (length (pre @ [a])) n' = Inl IndexError"
    using Cons.prems n by (intro Cons.IH) simp_all
  show ?case using a rest n by (simp add: and_then_def nth_append)
qed

lemma read_atoms_bad:
  "list_all (atom_ok P) atoms \<Longrightarrow> py_xyz P bad = Inl e \<Longrightarrow> length atoms < n \<Longrightarrow>
     read_atoms P (pre @ atoms @ bad # post) (length pre) n = Inl e"
proof (induction atoms arbitrary: pre n)
  case Nil
  then show ?case by (cases n) (simp_all add: and_then_def nth_append)
next
  case (Cons a atoms)
  from Cons.prems obtain xyz where a: "py_xyz P a = Inr xyz"
    by (auto simp: atom_ok_def split: sum.splits)
  from Cons.prems obtain n' where n: "n = Suc n'" "length atoms < n'" by (cases n) auto
  have rest: "read_atoms P ((pre @ [a]) @ atoms @ bad # post) (length (pre @ [a])) n' = Inl e"
    using Cons.prems n by (intro Cons.IH) simp_all
  show ?case using a rest n by (simp add: and_then_def nth_append)
qed

lemma read_block:
  assumes "xyz_block P b"
  shows "read_xyz_loop P (pre @ b @ post) (length pre) acc =
         read_xyz_loop P (pre @ b @ post) (length pre + length b) (acc @ [block_frame P b])"
proof -
  from assms obtain count comment atoms where b: "b = count # comment # atoms"
    and c: "py_int P count = Some (int (length atoms))" and ok: "list_all (atom_ok P) atoms"
    by (auto simp: xyz_block_def split: list.splits)
  have at: "read_atoms P (pre @ count # comment # atoms @ post) (Suc (Suc (length pre)))
      (length atoms) = Inr (block_frame P (count # comment # atoms))"
    using read_atoms_ok [OF ok, of "pre @ [count, comment]" post]
    by (simp add: block_frame_def)
  show ?thesis
    by (subst read_xyz_loop.simps) (simp add: b c nth_append and_then_def at)
qed

lemma read_blocks:
  "list_all (xyz_block P) bs \<Longrightarrow>
     read_xyz_loop P (pre @ concat bs @ post) (length pre) acc =
     read_xyz_loop P (pre @ concat bs @ post) (length pre + length (concat bs))
       (acc @ map (block_frame P) bs)"
proof (induction bs arbitrary: pre acc)
  case Nil
  then show ?case by simp
next
  case (Cons b bs)
  have "read_xyz_loop P (pre @ concat (b # bs) @ post) (length pre) acc =
      read_xyz_loop P (pre @ b @ concat bs @ post) (length pre + length b)
        (acc @ [block_frame P b])"
    using read_block [of P b pre "concat bs @ post" acc] Cons.prems by simp
  also have "\<dots> = read_xyz_loop P ((pre @ b) @ concat bs @ post)
      (length (pre @ b) + length (concat bs)) ((acc @ [block_frame P b]) @ map (block_frame P) bs)"
    using Cons.IH [of "pre @ b" "acc @ [block_frame P b]"] Cons.prems by simp
  finally show ?case by (simp add: add.assoc)
qed

lemma read_xyz_well_formed:
  "list_all (xyz_block P) bs \<Longrightarrow> read_xyz P (concat bs) = Inr (map (block_frame P) bs)"
  using read_blocks [of P bs "[]" "[]" "[]"]
  by (simp add: read_xyz_def read_xyz_loop.simps [of P "concat bs" "length (concat bs)"])

lemma read_xyz_after_blocks:
  "list_all (xyz_block P) bs \<Longrightarrow>
     read_xyz P (concat bs @ rest) =
     read_xyz_loop P (concat bs @ rest) (length (concat bs)) (map (block_frame P) bs)"
  using read_blocks [of P bs "[]" rest "[]"] by (simp add: read_xyz_def)

lemma read_xyz_bad_count:
  "list_all (xyz_block P) bs \<Longrightarrow> py_int P c = None \<Longrightarrow>
     read_xyz P (concat bs @ c # rest) = Inl ValueError"
  by (simp add: read_xyz_after_blocks)
    (simp add: read_xyz_loop.simps [of P "concat bs @ c # rest" "length (concat bs)"] nth_append)

lemma read_xyz_missing_atoms:
  assumes "list_all (xyz_block P) bs" and "py_int P c = Some n"
    and "list_all (atom_ok P) atoms" and "length atoms < nat n"
  shows "read_xyz P (concat bs @ c # comment # atoms) = Inl IndexError"
proof -
  have "read_atoms P ((concat bs @ [c, comment]) @ atoms) (length (concat bs @ [c, comment])) (nat n)
      = Inl IndexError"
    using assms(3,4) by (rule read_atoms_missing)
  then have at: "read_atoms P (concat bs @ c # comment # atoms) (Suc (Suc (length (concat bs)))) (nat n)
      = Inl IndexError"
    by simp
  show ?thesis
    by (simp add: read_xyz_after_blocks assms(1))
      (simp add: read_xyz_loop.simps [of P "concat bs @ c # comment # atoms" "length (concat bs)"]
        nth_append assms(2) at and_then_def)
qed

lemma read_xyz_missing_comment:
  assumes "list_all (xyz_block P) bs" and "py_int P c = Some n" and "0 < n"
  shows "read_xyz P (concat bs @ [c]) = Inl IndexError"
proof -
  obtain n' where n: "nat n = Suc n'" using assms(3) by (cases "nat n") auto
  show ?thesis
    by (simp add: read_xyz_after_blocks assms(1))
      (simp add: read_xyz_loop.simps [of P "concat bs @ [c]" "length (concat bs)"]
        nth_append assms(2) n and_then_def)
qed

lemma read_xyz_bad_atom:
  assumes "list_all (xyz_block P) bs" and "py_int P c = Some n"
    and "list_all (atom_ok P) atoms" and "length atoms < nat n" and "py_xyz P bad = Inl e"
  shows "read_xyz P (concat bs @ c # comment # atoms @ bad # rest) = Inl e"
proof -
  have "read_atoms P ((concat bs @ [c, comment]) @ atoms @ bad # rest)
      (length (concat bs @ [c, comment])) (nat n) = Inl e"
    using assms(3,5,4) by (rule read_atoms_bad)
  then have at: "read_atoms P (concat bs @ c # comment # atoms @ bad # rest)
      (Suc (Suc (length (concat bs)))) (nat n) = Inl e"
    by simp
  show ?thesis
    by (simp add: read_xyz_after_blocks assms(1))
      (simp add: read_xyz_loop.simps
          [of P "concat bs @ c # comment # atoms @ bad # rest" "length (concat bs)"]
        nth_append assms(2) at and_then_def)
qed

lemma sample_block: "list_all (xyz_block sample_env) [sample_data]"
  by (simp add: xyz_block_def sample_data_def sample_env_def atom_ok_def)

text \<open>
  Claim C7, as amended. When the first line of the file, the declared atom count, is
  not parseable as an integer, the driver raises ValueError and has written nothing. The
  RMSD program fails before any output, after any number of well-formed blocks, when the
  next atom-count line is not an integer (ValueError), when the file ends before the
  declared number of atom lines (IndexError), and when one of these atom lines does not
  parse (with the exception of that line); a file of well-formed blocks only is read into
  one conformer per block.
\<close>

theorem unparseable_atom_count_fails_before_output:
  assumes "list_all (xyz_block P) blocks"
  shows "(py_int P line = None \<longrightarrow>
            main P (line # rest) argv input_txt folder w = (Raised ValueError, w)) \<and>
         (py_int P c = None \<longrightarrow>
            rmsd_main P (concat blocks @ c # rest) output_file fs = (Some ValueError, fs)) \<and>
         (py_int P c = Some n \<and> list_all (atom_ok P) atoms \<and> length atoms < nat n \<longrightarrow>
            rmsd_main P (concat blocks @ c # comment # atoms) output_file fs
              = (Some IndexError, fs)) \<and>
         (py_int P c = Some n \<and> 0 < n \<longrightarrow>
            rmsd_main P (concat blocks @ [c]) output_file fs = (Some IndexError, fs)) \<and>
         (py_int P c = Some n \<and> list_all (atom_ok P) atoms \<and> length atoms < nat n \<and>
          py_xyz P bad = Inl e \<longrightarrow>
            rmsd_main P (concat blocks @ c # comment # atoms @ bad # rest) output_file fs
              = (Some e, fs)) \<and>
         read_xyz P (concat blocks) = Inr (map (block_frame P) blocks)"
proof (intro conjI impI)
  show "main P (line # rest) argv input_txt folder w = (Raised ValueError, w)"
    if "py_int P line = None"
    using that by (simp add: main_def prelude_def py_get_def and_then_def)
  show "rmsd_main P (concat blocks @ c # rest) output_file fs = (Some ValueError, fs)"
    if "py_int P c = None"
    using read_xyz_bad_count [OF assms that, of rest] by (simp add: rmsd_main_def)
  show "rmsd_main P (concat blocks @ c # comment # atoms) output_file fs = (Some IndexError, fs)"
    if h: "py_int P c = Some n \<and> list_all (atom_ok P) atoms \<and> length atoms < nat n"
  proof -
    from h have a: "py_int P c = Some n" and b: "list_all (atom_ok P) atoms"
      and c: "length atoms < nat n" by simp_all
    have "read_xyz P (concat blocks @ c # comment # atoms) = Inl IndexError"
      by (rule read_xyz_missing_atoms [OF assms a b c])
    then show ?thesis by (simp add: rmsd_main_def)
  qed
  show "rmsd_main P (concat blocks @ [c]) output_file fs = (Some IndexError, fs)"
    if h: "py_int P c = Some n \<and> 0 < n"
  proof -
    from h have a: "py_int P c = Some n" and b: "0 < n" by simp_all
    have "read_xyz P (concat blocks @ [c]) = Inl IndexError"
      by (rule read_xyz_missing_comment [OF assms a b])
    then show ?thesis by (simp add: rmsd_main_def)
  qed
  show "rmsd_main P (concat blocks @ c # comment # atoms @ bad # rest) output_file fs = (Some e, fs)"
    if h: "py_int P c = Some n \<and> list_all (atom_ok P) atoms \<and> length atoms < nat n \<and>
          py_xyz P bad = Inl e"
  proof -
    from h have a: "py_int P c = Some n" and b: "list_all (atom_ok P) atoms"
      and c: "length atoms < nat n" and d: "py_xyz P bad = Inl e" by simp_all
    have "read_xyz P (concat blocks @ c # comment # atoms @ bad # rest) = Inl e"
      by (rule read_xyz_bad_atom [OF assms a b c d])
    then show ?thesis by (simp add: rmsd_main_def)
  qed
  show "read_xyz P (concat blocks) = Inr (map (block_frame P) blocks)"
    using assms by (rule read_xyz_well_formed)
qed

text \<open>
  The amended claim C7 on the sample file followed by a second block with a count that
  is a word, with one atom line too few, and with an atom line that is not numeric.
\<close>

theorem unparseable_atom_count_fails_before_output_witness:
  "list_all (xyz_block sample_env) [sample_data] \<and>
   py_int sample_env ''five'' = None \<and>
   main sample_env [''five'', ''conformer 1'', ''C 0.0 0.0 0.0''] [''xyz2com_crest_pc.py''] None
      ''crest_conformers'' empty_world = (Raised ValueError, empty_world) \<and>
   rmsd_main sample_env (sample_data @ [''five'', ''conformer 2'', ''C 0.0 0.0 0.0''])
      ''rmsd_output.txt'' Map.empty = (Some ValueError, Map.empty) \<and>
   rmsd_main sample_env (sample_data @ [''2'', ''conformer 2'', ''C 0.0 0.0 0.0''])
      ''rmsd_output.txt'' Map.empty = (Some IndexError, Map.empty) \<and>
   rmsd_main sample_env (sample_data @ [''2'', ''conformer 2'', ''C 0.0 0.0 0.0'', ''C zero 0.0 0.0''])
      ''rmsd_output.txt'' Map.empty = (Some ValueError, Map.empty) \<and>
   read_xyz sample_env sample_data = Inr [block_frame sample_env sample_data]"
proof -
  note b = sample_block
  have h: "py_int sample_env ''five'' = None" by (simp add: sample_env_def)
  have two: "py_int sample_env ''2'' = Some 2" by (simp add: sample_env_def)
  have ok: "list_all (atom_ok sample_env) [''C 0.0 0.0 0.0'']"
    by (simp add: atom_ok_def sample_env_def)
  have bad: "py_xyz sample_env ''C zero 0.0 0.0'' = Inl ValueError"
    by (simp add: sample_env_def)
  have 1: "main sample_env [''five'', ''conformer 1'', ''C 0.0 0.0 0.0''] [''xyz2com_crest_pc.py'']
      None ''crest_conformers'' empty_world = (Raised ValueError, empty_world)"
    using unparseable_atom_count_fails_before_output [OF b, where line = "''five''"] h by blast
  have 2: "rmsd_main sample_env (sample_data @ [''five'', ''conformer 2'', ''C 0.0 0.0 0.0''])
      ''rmsd_output.txt'' Map.empty = (Some ValueError, Map.empty)"
    using unparseable_atom_count_fails_before_output [OF b, where c = "''five''"
        and rest = "[''conformer 2'', ''C 0.0 0.0 0.0'']" and output_file = "''rmsd_output.txt''"
        and fs = Map.empty] h
    by simp
  have 3: "rmsd_main sample_env (sample_data @ [''2'', ''conformer 2'', ''C 0.0 0.0 0.0''])
      ''rmsd_output.txt'' Map.empty = (Some IndexError, Map.empty)"
    using unparseable_atom_count_fails_before_output [OF b, where c = "''2''" and n = 2
        and comment = "''conformer 2''" and atoms = "[''C 0.0 0.0 0.0'']"
        and output_file = "''rmsd_output.txt''" and fs = Map.empty] two ok
    by simp
  have 4: "rmsd_main sample_env
      (sample_data @ [''2'', ''conformer 2'', ''C 0.0 0.0 0.0'', ''C zero 0.0 0.0''])
      ''rmsd_output.txt'' Map.empty = (Some ValueError, Map.empty)"
    using unparseable_atom_count_fails_before_output [OF b, where c = "''2''" and n = 2
        and comment = "''conformer 2''" and atoms = "[''C 0.0 0.0 0.0'']"
        and bad = "''C zero 0.0 0.0''" and e = ValueError and rest = "[]"
        and output_file = "''rmsd_output.txt''" and fs = Map.empty] two ok bad
    by simp
  have 5: "read_xyz sample_env sample_data = Inr [block_frame sample_env sample_data]"
    using unparseable_atom_count_fails_before_output [OF b] by simp
  show ?thesis using b h 1 2 3 4 5 by (intro conjI)
qed

text \<open>
  Claim C8, as amended. When the output folder exists, a run of the driver leaves the
  directories, the files and the figures as they were. If the header and the command line
  were read without an exception, the run prints the conflict and exits; otherwise it
  ends with that exception, has printed nothing and has changed nothing at all.
\<close>

theorem existing_folder_refused:
  assumes "path_exists w folder"
  shows "dirs (snd (main P dat argv input_txt folder w)) = dirs w \<and>
         files (snd (main P dat argv input_txt folder w)) = files w \<and>
         figures (snd (main P dat argv input_txt folder w)) = figures w \<and>
         (\<forall>n s keywords. prelude P dat argv input_txt = Inr (n, s, keywords) \<longrightarrow>
            main P dat argv input_txt folder w =
              (Exited, w\<lparr>stdout := stdout w @ [''Folder '' @ folder @ '' already exists.'']\<rparr>)) \<and>
         (\<forall>e. prelude P dat argv input_txt = Inl e \<longrightarrow>
            main P dat argv input_txt folder w = (Raised e, w))"
  using assms by (cases "prelude P dat argv input_txt") (auto simp: main_def)

text \<open>
  The amended claim C8 on the sample file with the folder already there.
\<close>

theorem existing_folder_refused_witness:
  "path_exists (empty_world\<lparr>dirs := {''crest_conformers''}\<rparr>) ''crest_conformers'' \<and>
   main sample_env sample_data [''xyz2com_crest_pc.py'', ''-l'', ''1'', ''2''] None ''crest_conformers''
      (empty_world\<lparr>dirs := {''crest_conformers''}\<rparr>)
     = (Exited, empty_world\<lparr>dirs := {''crest_conformers''},
          stdout := [''Folder crest_conformers already exists.'']\<rparr>)"
proof -
  have h: "path_exists (empty_world\<lparr>dirs := {''crest_conformers''}\<rparr>) ''crest_conformers''"
    by (simp add: path_exists_def)
  have p: "prelude sample_env sample_data [''xyz2com_crest_pc.py'', ''-l'', ''1'', ''2''] None =
      Inr (5, (initial_settings 1)\<lparr>bd_atm1 := 2, bd_atm2 := 3\<rparr>, default_inpMB)"
    by (simp add: prelude_def py_get_def and_then_def sample_env_def sample_data_def
        py_int_quotient_def upt_conv_Cons parse_flag_def argv_int_def argv_at_def)
  from existing_folder_refused [OF h, of sample_env sample_data
      "[''xyz2com_crest_pc.py'', ''-l'', ''1'', ''2'']" None] p
  have "main sample_env sample_data [''xyz2com_crest_pc.py'', ''-l'', ''1'', ''2''] None
      ''crest_conformers'' (empty_world\<lparr>dirs := {''crest_conformers''}\<rparr>)
     = (Exited, empty_world\<lparr>dirs := {''crest_conformers''},
          stdout := stdout (empty_world\<lparr>dirs := {''crest_conformers''}\<rparr>) @
            [''Folder '' @ ''crest_conformers'' @ '' already exists.'']\<rparr>)"
    by simp
  then show ?thesis using h by (simp add: empty_world_def)
qed

text \<open>
  Claim C8 as stated fails: with the folder already there and the command line
  \<open>-l 1\<close>, which lacks the second atom number, the run ends with IndexError while reading
  the command line; it never looks at the folder and reports no conflict.
\<close>

theorem existing_folder_counterexample:
  "path_exists (empty_world\<lparr>dirs := {''crest_conformers''}\<rparr>) ''crest_conformers'' \<and>
   main sample_env sample_data [''xyz2com_crest_pc.py'', ''-l'', ''1''] None ''crest_conformers''
      (empty_world\<lparr>dirs := {''crest_conformers''}\<rparr>)
     = (Raised IndexError, empty_world\<lparr>dirs := {''crest_conformers''}\<rparr>) \<and>
   stdout (snd (main sample_env sample_data [''xyz2com_crest_pc.py'', ''-l'', ''1''] None
      ''crest_conformers'' (empty_world\<lparr>dirs := {''crest_conformers''}\<rparr>))) = []"
  by (simp add: main_def prelude_def py_get_def and_then_def sample_env_def sample_data_def
      py_int_quotient_def upt_conv_Cons parse_flag_def argv_int_def argv_at_def path_exists_def
      empty_world_def)

end
